theory Spec2Isabelle
  imports Main
begin

section \<open>Data model\<close>

text \<open>
  The embedded program is \<^verbatim>\<open>src/lib/lichessStudy.js\<close>: the synchronisation of a
  user's Lichess studies with the local database and the inclusion of studies in the
  repertoire. A JavaScript \<^verbatim>\<open>Date\<close> is the integer of its milliseconds; row ids are
  natural numbers; user ids and Lichess ids are strings.
\<close>

type_synonym date = int

text \<open>
  What a rejected promise carries: \<^verbatim>\<open>new Error(msg)\<close>, the \<^verbatim>\<open>TypeError\<close> of a
  property read on \<^verbatim>\<open>null\<close> or \<^verbatim>\<open>undefined\<close>, an error of the storage client, an
  error of the remote service.
\<close>

datatype error = Error string | TypeError string | PrismaError string | FetchError string

fun message :: "error \<Rightarrow> string" where
  "message (Error m) = m"
| "message (TypeError m) = m"
| "message (PrismaError m) = m"
| "message (FetchError m) = m"

text \<open>A row of the table LichessStudy, with the columns the source reads and writes.\<close>

record lichess_study =
  ls_id :: nat
  ls_lichessId :: string
  ls_userId :: string
  ls_lastModifiedOnLichess :: date
  ls_lastFetched :: date
  ls_name :: string
  ls_pgn :: string
  ls_guessedColor :: string
  ls_previewFen :: string
  ls_included :: bool
  ls_hidden :: bool
  ls_removedOnLichess :: bool
  ls_repForWhite :: "bool option"

text \<open>A row of the table LichessStudyUpdate (the object \<^verbatim>\<open>updated_study\<close>).\<close>

record lichess_study_update =
  lsu_studyId :: nat
  lsu_fetched :: date
  lsu_lastModifiedOnLichess :: date
  lsu_numNewMoves :: nat
  lsu_numNewOwnMoves :: nat
  lsu_numRemovedMoves :: nat
  lsu_numRemovedOwnMoves :: nat
  lsu_pgn :: string

text \<open>A move as the parser returns it and as \<^verbatim>\<open>fetchStudyUpdate\<close> selects it.\<close>

record parsed_move =
  pm_repForWhite :: bool
  pm_ownMove :: bool
  pm_fromFen :: string
  pm_toFen :: string

text \<open>
  A row of the table Move. The many-to-many relations to Pgn and LichessStudy are the
  lists of the ids of the connected rows.
\<close>

record move_row =
  mv_id :: nat
  mv_userId :: string
  mv_repForWhite :: bool
  mv_ownMove :: bool
  mv_fromFen :: string
  mv_toFen :: string
  mv_deleted :: bool
  mv_pgns :: "nat list"
  mv_studies :: "nat list"

record user_row =
  u_id :: string
  u_lastRepertoireUpdateCheck :: "date option"

record database =
  LichessStudy :: "lichess_study list"
  LichessStudyUpdate :: "lichess_study_update list"
  Move :: "move_row list"
  User :: "user_row list"
  next_study_id :: nat
  next_move_id :: nat

section \<open>The storage client\<close>

text \<open>
  The \<^verbatim>\<open>data\<close> object of \<^verbatim>\<open>prisma.LichessStudy.update\<close>: a field that is \<open>None\<close>
  is absent from the object. \<open>d_moves_set\<close> is \<^verbatim>\<open>moves: { set: [...] }\<close>.
\<close>

record study_data =
  d_removedOnLichess :: "bool option"
  d_name :: "string option"
  d_included :: "bool option"
  d_repForWhite :: "bool option"
  d_lastModifiedOnLichess :: "date option"
  d_lastFetched :: "date option"
  d_pgn :: "string option"
  d_moves_set :: "nat list option"

definition no_data :: study_data where
  "no_data = \<lparr> d_removedOnLichess = None, d_name = None, d_included = None,
     d_repForWhite = None, d_lastModifiedOnLichess = None, d_lastFetched = None,
     d_pgn = None, d_moves_set = None \<rparr>"

text \<open>The promises the source pushes to \<^verbatim>\<open>queries\<close>, run later by \<^verbatim>\<open>$transaction\<close>.\<close>

datatype query =
    StudyUpdate nat study_data
  | StudyDelete nat
  | MoveUpsert string parsed_move nat
  | MoveUpdateDeleted nat bool

definition findUnique :: "database \<Rightarrow> nat \<Rightarrow> lichess_study option" where
  "findUnique d i = find (\<lambda>r. ls_id r = i) (LichessStudy d)"

text \<open>The relation \<^verbatim>\<open>moves\<close> of a study: the moves connected to it.\<close>

definition study_moves :: "database \<Rightarrow> nat \<Rightarrow> move_row list" where
  "study_moves d i = filter (\<lambda>m. i \<in> set (mv_studies m)) (Move d)"

definition study_updates :: "database \<Rightarrow> nat \<Rightarrow> lichess_study_update list" where
  "study_updates d i = filter (\<lambda>u. lsu_studyId u = i) (LichessStudyUpdate d)"

definition set_study_fields :: "study_data \<Rightarrow> lichess_study \<Rightarrow> lichess_study" where
  "set_study_fields dt r =
     r \<lparr> ls_removedOnLichess := (case d_removedOnLichess dt of None \<Rightarrow> ls_removedOnLichess r | Some b \<Rightarrow> b),
         ls_name := (case d_name dt of None \<Rightarrow> ls_name r | Some n \<Rightarrow> n),
         ls_included := (case d_included dt of None \<Rightarrow> ls_included r | Some b \<Rightarrow> b),
         ls_repForWhite := (case d_repForWhite dt of None \<Rightarrow> ls_repForWhite r | Some b \<Rightarrow> Some b),
         ls_lastModifiedOnLichess :=
           (case d_lastModifiedOnLichess dt of None \<Rightarrow> ls_lastModifiedOnLichess r | Some t \<Rightarrow> t),
         ls_lastFetched := (case d_lastFetched dt of None \<Rightarrow> ls_lastFetched r | Some t \<Rightarrow> t),
         ls_pgn := (case d_pgn dt of None \<Rightarrow> ls_pgn r | Some p \<Rightarrow> p) \<rparr>"

text \<open>
  \<^verbatim>\<open>moves: { set: ids }\<close> on study \<open>i\<close>: afterwards the study is connected to exactly
  the moves whose id is in \<open>ids\<close>.
\<close>

definition set_study_moves :: "nat \<Rightarrow> nat list \<Rightarrow> move_row \<Rightarrow> move_row" where
  "set_study_moves i ids m =
     m \<lparr> mv_studies := (if mv_id m \<in> set ids then List.insert i (mv_studies m)
                          else removeAll i (mv_studies m)) \<rparr>"

text \<open>\<^verbatim>\<open>prisma.LichessStudy.update\<close>: rejected when no row has the id.\<close>

definition study_update :: "nat \<Rightarrow> study_data \<Rightarrow> database \<Rightarrow> error + database" where
  "study_update i dt d =
     (case findUnique d i of
        None \<Rightarrow> Inl (PrismaError ''Record to update not found.'')
      | Some _ \<Rightarrow>
          Inr (d \<lparr> LichessStudy :=
                     map (\<lambda>r. if ls_id r = i then set_study_fields dt r else r) (LichessStudy d),
                   Move := (case d_moves_set dt of
                              None \<Rightarrow> Move d
                            | Some ids \<Rightarrow> map (set_study_moves i ids) (Move d)) \<rparr>))"

text \<open>
  Modelled from the spec: the storage schema (\<^verbatim>\<open>schema.prisma\<close>) is not among the
  sources. \<^verbatim>\<open>prisma.LichessStudy.delete\<close> is rejected when no row has the id; it
  hard-deletes the row, and with it the rows that cannot exist without it: the study's
  pending update and its edges to moves.
\<close>

definition study_delete :: "nat \<Rightarrow> database \<Rightarrow> error + database" where
  "study_delete i d =
     (case findUnique d i of
        None \<Rightarrow> Inl (PrismaError ''Record to delete does not exist.'')
      | Some _ \<Rightarrow>
          Inr (d \<lparr> LichessStudy := filter (\<lambda>r. ls_id r \<noteq> i) (LichessStudy d),
                   LichessStudyUpdate := filter (\<lambda>u. lsu_studyId u \<noteq> i) (LichessStudyUpdate d),
                   Move := map (\<lambda>m. m \<lparr> mv_studies := removeAll i (mv_studies m) \<rparr>) (Move d) \<rparr>))"

text \<open>The compound unique key \<^verbatim>\<open>userId_repForWhite_fromFen_toFen\<close> of the upsert.\<close>

definition move_key_matches :: "string \<Rightarrow> parsed_move \<Rightarrow> move_row \<Rightarrow> bool" where
  "move_key_matches user_id move r \<longleftrightarrow>
     mv_userId r = user_id \<and> mv_repForWhite r = pm_repForWhite move \<and>
     mv_fromFen r = pm_fromFen move \<and> mv_toFen r = pm_toFen move"

text \<open>
  \<^verbatim>\<open>prisma.move.upsert\<close> as \<^verbatim>\<open>includeStudy\<close> calls it. The branch \<^verbatim>\<open>update\<close> connects
  the study and sets \<^verbatim>\<open>deleted: false\<close>; the branch \<^verbatim>\<open>create\<close> inserts the move with
  the study as its only connection (a new row is not deleted and gets the next id).
  Connecting a study that does not exist is rejected.
\<close>

definition move_upsert :: "string \<Rightarrow> parsed_move \<Rightarrow> nat \<Rightarrow> database \<Rightarrow> error + database" where
  "move_upsert user_id move study_id d =
     (case findUnique d study_id of
        None \<Rightarrow> Inl (PrismaError ''Record to connect not found.'')
      | Some _ \<Rightarrow>
          if list_ex (move_key_matches user_id move) (Move d)
          then Inr (d \<lparr> Move :=
                   map (\<lambda>r. if move_key_matches user_id move r
                            then r \<lparr> mv_studies := List.insert study_id (mv_studies r),
                                     mv_deleted := False \<rparr>
                            else r) (Move d) \<rparr>)
          else Inr (d \<lparr> Move := Move d @
                     [\<lparr> mv_id = next_move_id d, mv_userId = user_id,
                        mv_repForWhite = pm_repForWhite move, mv_ownMove = pm_ownMove move,
                        mv_fromFen = pm_fromFen move, mv_toFen = pm_toFen move,
                        mv_deleted = False, mv_pgns = [], mv_studies = [study_id] \<rparr>],
                     next_move_id := Suc (next_move_id d) \<rparr>))"

text \<open>\<^verbatim>\<open>prisma.move.update({ where: { id }, data: { deleted } })\<close>.\<close>

definition move_update_deleted :: "nat \<Rightarrow> bool \<Rightarrow> database \<Rightarrow> error + database" where
  "move_update_deleted i b d =
     (if list_ex (\<lambda>m. mv_id m = i) (Move d)
      then Inr (d \<lparr> Move := map (\<lambda>m. if mv_id m = i then m \<lparr> mv_deleted := b \<rparr> else m) (Move d) \<rparr>)
      else Inl (PrismaError ''Record to update not found.''))"

fun run_query :: "query \<Rightarrow> database \<Rightarrow> error + database" where
  "run_query (StudyUpdate i dt) d = study_update i dt d"
| "run_query (StudyDelete i) d = study_delete i d"
| "run_query (MoveUpsert user_id move study_id) d = move_upsert user_id move study_id d"
| "run_query (MoveUpdateDeleted i b) d = move_update_deleted i b d"

fun run_queries :: "query list \<Rightarrow> database \<Rightarrow> error + database" where
  "run_queries [] d = Inr d"
| "run_queries (q # qs) d =
     (case run_query q d of Inl e \<Rightarrow> Inl e | Inr d' \<Rightarrow> run_queries qs d')"

section \<open>External collaborators\<close>

text \<open>What \<^verbatim>\<open>fetchStudiesMetadata\<close> returns for one study, and what \<^verbatim>\<open>fetchStudy\<close> returns.\<close>

record study_metadata =
  sm_id :: string
  sm_name :: string
  sm_updatedAt :: date

record fetched_study =
  fs_pgn :: string
  fs_lastModified :: date

text \<open>
  The imported functions whose code is outside the repository's core, and the behaviour
  of the outside world, as parameters:
  \<^item> \<open>fetchStudiesMetadata\<close> and \<open>fetchStudy\<close> of \<^verbatim>\<open>lichessApi.js\<close>; the first argument
    of \<open>fetchStudy\<close> is the number of fetches made before, so that the remote service may
    answer differently each time; both may be rejected;
  \<^item> \<open>pgndbToMoves\<close>, \<open>guessColor\<close> and \<open>makePreviewFen\<close> of \<^verbatim>\<open>pgnParsing.js\<close>; an
    argument that is \<open>None\<close> is \<^verbatim>\<open>null\<close> or \<^verbatim>\<open>undefined\<close>;
  \<^item> \<open>clock\<close>: the value of the \<open>n\<close>-th \<^verbatim>\<open>new Date()\<close>;
  \<^item> \<open>transaction_fault\<close>: whether the storage engine rejects a batch for a reason of its
    own (\<open>Some\<close> of the message), whatever the batch holds.
\<close>

record env =
  fetchStudiesMetadata :: "string \<Rightarrow> string \<Rightarrow> error + study_metadata list"
  fetchStudy :: "nat \<Rightarrow> string \<Rightarrow> string \<Rightarrow> string \<Rightarrow> error + fetched_study"
  pgndbToMoves :: "string \<Rightarrow> bool option \<Rightarrow> bool option \<Rightarrow> parsed_move list"
  guessColor :: "string \<Rightarrow> string"
  makePreviewFen :: "string \<Rightarrow> string"
  clock :: "nat \<Rightarrow> date"
  transaction_fault :: "database \<Rightarrow> query list \<Rightarrow> string option"

text \<open>
  The state a call runs in: the database, the number of \<^verbatim>\<open>new Date()\<close> evaluated so
  far, and the Lichess ids passed to \<^verbatim>\<open>fetchStudy\<close> so far.
\<close>

record world =
  db :: database
  ticks :: nat
  fetch_log :: "string list"

text \<open>
  \<^verbatim>\<open>prisma.$transaction(queries)\<close>: all of the queries or none. The result is the new
  database; on rejection the caller keeps the old one.
\<close>

definition transaction :: "env \<Rightarrow> database \<Rightarrow> query list \<Rightarrow> error + database" where
  "transaction e d queries =
     (case transaction_fault e d queries of
        Some msg \<Rightarrow> Inl (PrismaError msg)
      | None \<Rightarrow> run_queries queries d)"

text \<open>
  Modelled from the spec: \<^verbatim>\<open>orphanMoveSoftDeletionsQueries\<close> of \<^verbatim>\<open>movesUtil.js\<close>, which
  is not among the sources. It is given the moves attached to the document being
  detached, each with its sets of owning collections (\<^verbatim>\<open>pgns\<close> and \<^verbatim>\<open>studies\<close>), and
  not the document. It returns one soft-delete instruction for each of the moves whose
  owner set is empty once this document is removed from it, that is, for a move
  attached to the document, whose owner set has exactly one member.
\<close>

definition is_orphan :: "move_row \<Rightarrow> bool" where
  "is_orphan m \<longleftrightarrow> card (set (mv_pgns m)) + card (set (mv_studies m)) = 1"

definition orphanMoveSoftDeletionsQueries :: "move_row list \<Rightarrow> query list" where
  "orphanMoveSoftDeletionsQueries moves =
     map (\<lambda>m. MoveUpdateDeleted (mv_id m) True) (filter is_orphan moves)"

section \<open>Inclusion in the repertoire\<close>

text \<open>The decimal numeral of a row id, as \<^verbatim>\<open>'Study #' + study_id\<close> prints it.\<close>

definition digit_char :: "nat \<Rightarrow> char" where
  "digit_char k = char_of (k + 48)"

fun string_of_nat :: "nat \<Rightarrow> string" where
  "string_of_nat n =
     (if 10 \<le> n then string_of_nat (n div 10) @ [digit_char (n mod 10)]
      else [digit_char n])"

declare string_of_nat.simps [simp del]

text \<open>
  \<^verbatim>\<open>includeStudy( study_id, prisma, user_id, repForWhite, onlyVariant = false )\<close>. The
  argument \<open>onlyVariant\<close> is \<open>None\<close> when the caller omits it.
\<close>

definition includeStudy ::
  "env \<Rightarrow> nat \<Rightarrow> string \<Rightarrow> bool \<Rightarrow> bool option \<Rightarrow> world \<Rightarrow> (error + unit) \<times> world" where
  "includeStudy e study_id user_id repForWhite onlyVariant_arg w =
     (case findUnique (db w) study_id of
        None \<Rightarrow> (Inl (PrismaError ''No LichessStudy found''), w)
      | Some study \<Rightarrow>
          if ls_userId study \<noteq> user_id
          then (Inl (Error ''Adding Lichess study failed: user ID does not match''), w)
          else if ls_hidden study
          then (Inl (Error ''Adding Lichess study failed: can't import hidden study, unhide it first''), w)
          else if ls_included study
          then (Inl (Error ''Adding Lichess study failed: study is already included''), w)
          else
            let onlyVariant = (case onlyVariant_arg of None \<Rightarrow> False | Some b \<Rightarrow> b);
                onlyVariant = True;
                moves = pgndbToMoves e (ls_pgn study) (Some repForWhite) (Some onlyVariant);
                queries = map (\<lambda>move. MoveUpsert user_id move study_id) moves @
                  [StudyUpdate study_id
                     (no_data \<lparr> d_included := Some True, d_repForWhite := Some repForWhite \<rparr>)]
            in (case transaction e (db w) queries of
                  Inl ex \<Rightarrow>
                    (Inl (Error (''Exception inserting moves into database: '' @ message ex)), w)
                | Inr d' \<Rightarrow> (Inr (), w \<lparr> db := d' \<rparr>)))"

text \<open>\<^verbatim>\<open>unincludeStudy( study_id, user_id, prisma )\<close>: returns \<^verbatim>\<open>num_deleted_moves\<close>.\<close>

definition unincludeStudy ::
  "env \<Rightarrow> nat \<Rightarrow> string \<Rightarrow> world \<Rightarrow> (error + nat) \<times> world" where
  "unincludeStudy e study_id user_id w =
     (case findUnique (db w) study_id of
        None \<Rightarrow> (Inl (Error (''Study #'' @ string_of_nat study_id @ '' not found'')), w)
      | Some study \<Rightarrow>
          if ls_userId study \<noteq> user_id
          then (Inl (Error ''Study does not belong to this account (are you logged in?)''), w)
          else
            let queries = orphanMoveSoftDeletionsQueries (study_moves (db w) study_id);
                num_deleted_moves = length queries;
                queries = queries @
                  [StudyUpdate study_id
                     (no_data \<lparr> d_included := Some False, d_moves_set := Some [] \<rparr>)]
            in (case transaction e (db w) queries of
                  Inl ex \<Rightarrow> (Inl (Error (message ex)), w)
                | Inr d' \<Rightarrow> (Inr num_deleted_moves, w \<lparr> db := d' \<rparr>)))"

text \<open>
  \<^verbatim>\<open>deleteStudy( user_id, study_id, prisma )\<close>. The result of \<^verbatim>\<open>findUnique\<close> is read
  without a test for \<^verbatim>\<open>null\<close>.
\<close>

definition deleteStudy ::
  "env \<Rightarrow> string \<Rightarrow> nat \<Rightarrow> world \<Rightarrow> (error + unit) \<times> world" where
  "deleteStudy e user_id study_id w =
     (case findUnique (db w) study_id of
        None \<Rightarrow> (Inl (TypeError ''Cannot read properties of null (reading 'userId')''), w)
      | Some study \<Rightarrow>
          if ls_userId study \<noteq> user_id
          then (Inl (Error ''Study does not belong to this user (are you logged in?)''), w)
          else
            (case (if ls_included study
                   then unincludeStudy e study_id user_id w
                   else (Inr 0, w)) of
               (Inl ex, w') \<Rightarrow> (Inl ex, w')
             | (Inr _, w') \<Rightarrow>
                 (case study_delete study_id (db w') of
                    Inl ex \<Rightarrow> (Inl ex, w')
                  | Inr d' \<Rightarrow> (Inr (), w' \<lparr> db := d' \<rparr>))))"

section \<open>Synchronisation with Lichess\<close>

text \<open>
  Modelled from the spec: \<^verbatim>\<open>compareMovesLists\<close> of \<^verbatim>\<open>movesUtil.js\<close>, which is not
  among the sources. Membership is by the composite identity key (the user being the
  same on both sides: colour, origin position, destination position), not by position
  in the list; the result is the pair of the added and the removed moves.
\<close>

definition same_move :: "parsed_move \<Rightarrow> parsed_move \<Rightarrow> bool" where
  "same_move a b \<longleftrightarrow>
     pm_repForWhite a = pm_repForWhite b \<and> pm_fromFen a = pm_fromFen b \<and> pm_toFen a = pm_toFen b"

definition compareMovesLists ::
  "parsed_move list \<Rightarrow> parsed_move list \<Rightarrow> parsed_move list \<times> parsed_move list" where
  "compareMovesLists existing_moves updated_moves =
     (filter (\<lambda>m. \<not> list_ex (same_move m) existing_moves) updated_moves,
      filter (\<lambda>m. \<not> list_ex (same_move m) updated_moves) existing_moves)"

text \<open>The columns \<^verbatim>\<open>fetchStudyUpdate\<close> selects of a move of the study.\<close>

definition selected_move :: "move_row \<Rightarrow> parsed_move" where
  "selected_move m = \<lparr> pm_repForWhite = mv_repForWhite m, pm_ownMove = mv_ownMove m,
     pm_fromFen = mv_fromFen m, pm_toFen = mv_toFen m \<rparr>"

text \<open>
  \<^verbatim>\<open>prisma.LichessStudyUpdate.upsert({ where: { studyId }, update, create })\<close> with the
  same object for \<^verbatim>\<open>update\<close> and \<^verbatim>\<open>create\<close>.
\<close>

definition update_upsert :: "lichess_study_update \<Rightarrow> database \<Rightarrow> database" where
  "update_upsert u d =
     (if list_ex (\<lambda>r. lsu_studyId r = lsu_studyId u) (LichessStudyUpdate d)
      then d \<lparr> LichessStudyUpdate :=
                 map (\<lambda>r. if lsu_studyId r = lsu_studyId u then u else r) (LichessStudyUpdate d) \<rparr>
      else d \<lparr> LichessStudyUpdate := LichessStudyUpdate d @ [u] \<rparr>)"

record update_stats =
  numNewMoves :: nat
  numNewOwnMoves :: nat
  numRemovedMoves :: nat
  numRemovedOwnMoves :: nat

text \<open>
  \<^verbatim>\<open>fetchStudyUpdate( user_id, study_id, prisma, lichess_username, lichess_access_token )\<close>.
  The selected study has no field \<^verbatim>\<open>onlyVariant\<close>, so the parser's third argument is
  \<^verbatim>\<open>undefined\<close>.
\<close>

definition fetchStudyUpdate ::
  "env \<Rightarrow> string \<Rightarrow> nat \<Rightarrow> string \<Rightarrow> string \<Rightarrow> world \<Rightarrow> (error + update_stats) \<times> world" where
  "fetchStudyUpdate e user_id study_id lichess_username lichess_access_token w =
     (case findUnique (db w) study_id of
        None \<Rightarrow> (Inl (TypeError ''Cannot read properties of null (reading 'userId')''), w)
      | Some study \<Rightarrow>
          if ls_userId study \<noteq> user_id
          then (Inl (Error ''Study does not belong to this user (are you logged in?)''), w)
          else if \<not> ls_included study
          then (Inl (Error ''Only studies that are part of your repertoire can be updated with fetchStudyUpdate, use updateUnincludedStudy.''), w)
          else
            let w1 = w \<lparr> fetch_log := fetch_log w @ [ls_lichessId study] \<rparr> in
            (case fetchStudy e (length (fetch_log w)) (ls_lichessId study)
                    lichess_username lichess_access_token of
               Inl ex \<Rightarrow> (Inl ex, w1)
             | Inr fetched \<Rightarrow>
                 let pgn = fs_pgn fetched;
                     updated_moves = pgndbToMoves e pgn (ls_repForWhite study) None;
                     (new_moves, removed_moves) =
                        compareMovesLists (map selected_move (study_moves (db w) study_id))
                          updated_moves;
                     stats = \<lparr> numNewMoves = length new_moves,
                               numNewOwnMoves = length (filter pm_ownMove new_moves),
                               numRemovedMoves = length removed_moves,
                               numRemovedOwnMoves = length (filter pm_ownMove removed_moves) \<rparr>;
                     updated_study = \<lparr> lsu_studyId = ls_id study,
                               lsu_fetched = clock e (ticks w1),
                               lsu_lastModifiedOnLichess = fs_lastModified fetched,
                               lsu_numNewMoves = numNewMoves stats,
                               lsu_numNewOwnMoves = numNewOwnMoves stats,
                               lsu_numRemovedMoves = numRemovedMoves stats,
                               lsu_numRemovedOwnMoves = numRemovedOwnMoves stats,
                               lsu_pgn = pgn \<rparr>
                 in (Inr stats,
                     w1 \<lparr> ticks := Suc (ticks w1), db := update_upsert updated_study (db w1) \<rparr>)))"

text \<open>
  \<^verbatim>\<open>updateUnincludedStudy( user_id, study_id, prisma, lichess_username,
  lichess_access_token )\<close>.
\<close>

definition updateUnincludedStudy ::
  "env \<Rightarrow> string \<Rightarrow> nat \<Rightarrow> string \<Rightarrow> string \<Rightarrow> world \<Rightarrow> (error + unit) \<times> world" where
  "updateUnincludedStudy e user_id study_id lichess_username lichess_access_token w =
     (case findUnique (db w) study_id of
        None \<Rightarrow> (Inl (TypeError ''Cannot read properties of null (reading 'userId')''), w)
      | Some study \<Rightarrow>
          if ls_userId study \<noteq> user_id
          then (Inl (Error ''Study does not belong to this user (are you logged in?)''), w)
          else if ls_included study
          then (Inl (Error ''Studies that are part of your repertoire cannot be updated with updateUnincludedStudy, use fetchStudyUpdate.''), w)
          else
            let w1 = w \<lparr> fetch_log := fetch_log w @ [ls_lichessId study] \<rparr> in
            (case fetchStudy e (length (fetch_log w)) (ls_lichessId study)
                    lichess_username lichess_access_token of
               Inl ex \<Rightarrow> (Inl ex, w1)
             | Inr fetched \<Rightarrow>
                 let w2 = w1 \<lparr> ticks := Suc (ticks w1) \<rparr> in
                 (case study_update (ls_id study)
                         (no_data \<lparr> d_lastModifiedOnLichess := Some (fs_lastModified fetched),
                                    d_lastFetched := Some (clock e (ticks w1)),
                                    d_pgn := Some (fs_pgn fetched) \<rparr>) (db w2) of
                    Inl ex \<Rightarrow> (Inl ex, w2)
                  | Inr d' \<Rightarrow> (Inr (), w2 \<lparr> db := d' \<rparr>))))"

text \<open>
  An element of \<^verbatim>\<open>existing_studies\<close>: a study of the user with its relation
  \<^verbatim>\<open>updates\<close>. The source selects some of the columns; the model keeps the rows.
\<close>

record existing_study =
  es_study :: lichess_study
  es_updates :: "lichess_study_update list"

definition findMany_existing :: "database \<Rightarrow> string \<Rightarrow> existing_study list" where
  "findMany_existing d user_id =
     map (\<lambda>r. \<lparr> es_study = r, es_updates = study_updates d (ls_id r) \<rparr>)
       (filter (\<lambda>r. ls_userId r = user_id) (LichessStudy d))"

text \<open>
  Modelled from the spec: the storage schema is not among the sources.
  \<^verbatim>\<open>prisma.LichessStudy.create\<close> with the data of the source inserts a new document that
  is not included, not hidden and not removed on the remote side, with no side chosen,
  under the next id; its time of fetching is the time of its creation.
\<close>

definition study_create ::
  "string \<Rightarrow> string \<Rightarrow> date \<Rightarrow> string \<Rightarrow> string \<Rightarrow> string \<Rightarrow> string \<Rightarrow> date \<Rightarrow> database
     \<Rightarrow> database" where
  "study_create lichessId userId lastModifiedOnLichess name pgn guessedColor previewFen now d =
     d \<lparr> LichessStudy := LichessStudy d @
           [\<lparr> ls_id = next_study_id d, ls_lichessId = lichessId, ls_userId = userId,
              ls_lastModifiedOnLichess = lastModifiedOnLichess, ls_lastFetched = now,
              ls_name = name, ls_pgn = pgn, ls_guessedColor = guessedColor,
              ls_previewFen = previewFen, ls_included = False, ls_hidden = False,
              ls_removedOnLichess = False, ls_repForWhite = None \<rparr>],
         next_study_id := Suc (next_study_id d) \<rparr>"

text \<open>The counters and the list \<^verbatim>\<open>queries\<close> of \<^verbatim>\<open>fetchAllStudyChanges\<close>.\<close>

record sync_state =
  num_new_studies :: nat
  num_updates_fetched :: nat
  num_renamed_studies :: nat
  num_removed_studies :: nat
  queries :: "query list"

definition has_newer_version_on_lichess :: "existing_study \<Rightarrow> study_metadata \<Rightarrow> bool" where
  "has_newer_version_on_lichess existing_study lichess_study \<longleftrightarrow>
     ls_lastFetched (es_study existing_study) < sm_updatedAt lichess_study"

text \<open>
  \<^verbatim>\<open>existing_study.updates.length && existing_study.updates[0].fetched >=
  lichess_last_modified\<close>, as a condition.
\<close>

definition has_current_update_fetched :: "existing_study \<Rightarrow> study_metadata \<Rightarrow> bool" where
  "has_current_update_fetched existing_study lichess_study \<longleftrightarrow>
     (case es_updates existing_study of
        [] \<Rightarrow> False
      | u # _ \<Rightarrow> lsu_fetched u \<ge> sm_updatedAt lichess_study)"

text \<open>The body of the first loop, for one study of \<^verbatim>\<open>lichess_studies\<close>.\<close>

definition sync_lichess_study ::
  "env \<Rightarrow> string \<Rightarrow> string \<Rightarrow> string \<Rightarrow> existing_study list \<Rightarrow> study_metadata
     \<Rightarrow> sync_state \<Rightarrow> world \<Rightarrow> (error + sync_state) \<times> world" where
  "sync_lichess_study e user_id lichess_username lichess_access_token existing_studies
       lichess_study s w =
     (if sm_id lichess_study \<notin> set (map (\<lambda>study. ls_lichessId (es_study study)) existing_studies)
      then
        let w1 = w \<lparr> fetch_log := fetch_log w @ [sm_id lichess_study] \<rparr> in
        (case fetchStudy e (length (fetch_log w)) (sm_id lichess_study)
                lichess_username lichess_access_token of
           Inl ex \<Rightarrow> (Inl ex, w1)
         | Inr fetched \<Rightarrow>
             let pgn = fs_pgn fetched;
                 guessedColor = guessColor e pgn;
                 previewFen = makePreviewFen e pgn
             in (Inr (s \<lparr> num_new_studies := num_new_studies s + 1 \<rparr>),
                 w1 \<lparr> ticks := Suc (ticks w1),
                      db := study_create (sm_id lichess_study) user_id (sm_updatedAt lichess_study)
                              (sm_name lichess_study) pgn guessedColor previewFen
                              (clock e (ticks w1)) (db w1) \<rparr>))
      else
        (case find (\<lambda>study. ls_lichessId (es_study study) = sm_id lichess_study) existing_studies of
           None \<Rightarrow> (Inl (TypeError ''Cannot read properties of undefined (reading 'removedOnLichess')''), w)
         | Some existing_study \<Rightarrow>
             let s1 = (if ls_removedOnLichess (es_study existing_study)
                       then s \<lparr> queries := queries s @
                              [StudyUpdate (ls_id (es_study existing_study))
                                 (no_data \<lparr> d_removedOnLichess := Some False \<rparr>)] \<rparr>
                       else s);
                 s2 = (if ls_name (es_study existing_study) \<noteq> sm_name lichess_study
                       then s1 \<lparr> queries := queries s1 @
                              [StudyUpdate (ls_id (es_study existing_study))
                                 (no_data \<lparr> d_name := Some (sm_name lichess_study) \<rparr>)],
                                num_renamed_studies := num_renamed_studies s1 + 1 \<rparr>
                       else s1)
             in if has_newer_version_on_lichess existing_study lichess_study \<and>
                   \<not> has_current_update_fetched existing_study lichess_study
                then
                  if ls_included (es_study existing_study)
                  then (case fetchStudyUpdate e user_id (ls_id (es_study existing_study))
                               lichess_username lichess_access_token w of
                          (Inl ex, w') \<Rightarrow> (Inl ex, w')
                        | (Inr _, w') \<Rightarrow>
                            (Inr (s2 \<lparr> num_updates_fetched := num_updates_fetched s2 + 1 \<rparr>), w'))
                  else if \<not> ls_hidden (es_study existing_study)
                  then (case updateUnincludedStudy e user_id (ls_id (es_study existing_study))
                               lichess_username lichess_access_token w of
                          (Inl ex, w') \<Rightarrow> (Inl ex, w')
                        | (Inr _, w') \<Rightarrow>
                            (Inr (s2 \<lparr> num_updates_fetched := num_updates_fetched s2 + 1 \<rparr>), w'))
                  else (Inr s2, w)
                else (Inr s2, w)))"

text \<open>The first loop: \<^verbatim>\<open>for ( const lichess_study of lichess_studies )\<close>.\<close>

fun sync_lichess_studies ::
  "env \<Rightarrow> string \<Rightarrow> string \<Rightarrow> string \<Rightarrow> existing_study list \<Rightarrow> study_metadata list
     \<Rightarrow> sync_state \<Rightarrow> world \<Rightarrow> (error + sync_state) \<times> world" where
  "sync_lichess_studies e user_id lichess_username lichess_access_token existing_studies [] s w =
     (Inr s, w)"
| "sync_lichess_studies e user_id lichess_username lichess_access_token existing_studies
       (lichess_study # rest) s w =
     (case sync_lichess_study e user_id lichess_username lichess_access_token existing_studies
             lichess_study s w of
        (Inl ex, w') \<Rightarrow> (Inl ex, w')
      | (Inr s', w') \<Rightarrow>
          sync_lichess_studies e user_id lichess_username lichess_access_token existing_studies
            rest s' w')"

text \<open>The body of the second loop, for one study of \<^verbatim>\<open>existing_studies\<close>.\<close>

definition find_deleted_study :: "string list \<Rightarrow> existing_study \<Rightarrow> sync_state \<Rightarrow> sync_state" where
  "find_deleted_study lichess_study_ids existing_study s =
     (if ls_lichessId (es_study existing_study) \<notin> set lichess_study_ids
      then
        if ls_included (es_study existing_study)
        then
          if \<not> ls_removedOnLichess (es_study existing_study)
          then s \<lparr> queries := queries s @
                     [StudyUpdate (ls_id (es_study existing_study))
                        (no_data \<lparr> d_removedOnLichess := Some True \<rparr>)],
                   num_removed_studies := num_removed_studies s + 1 \<rparr>
          else s
        else s \<lparr> queries := queries s @ [StudyDelete (ls_id (es_study existing_study))],
                 num_removed_studies := num_removed_studies s + 1 \<rparr>
      else s)"

text \<open>The second loop: \<^verbatim>\<open>for ( const existing_study of existing_studies )\<close>.\<close>

fun find_deleted_studies :: "string list \<Rightarrow> existing_study list \<Rightarrow> sync_state \<Rightarrow> sync_state" where
  "find_deleted_studies lichess_study_ids [] s = s"
| "find_deleted_studies lichess_study_ids (existing_study # rest) s =
     find_deleted_studies lichess_study_ids rest
       (find_deleted_study lichess_study_ids existing_study s)"

text \<open>\<^verbatim>\<open>prisma.User.update\<close> of \<^verbatim>\<open>lastRepertoireUpdateCheck\<close>: rejected when no row has the id.\<close>

definition user_update :: "string \<Rightarrow> date \<Rightarrow> database \<Rightarrow> error + database" where
  "user_update user_id now d =
     (if list_ex (\<lambda>u. u_id u = user_id) (User d)
      then Inr (d \<lparr> User := map (\<lambda>u. if u_id u = user_id
                                      then u \<lparr> u_lastRepertoireUpdateCheck := Some now \<rparr>
                                      else u) (User d) \<rparr>)
      else Inl (PrismaError ''Record to update not found.''))"

text \<open>What \<^verbatim>\<open>fetchAllStudyChanges\<close> returns.\<close>

record sync_result =
  r_num_new_studies :: nat
  r_num_updates_fetched :: nat
  r_num_renamed_studies :: nat
  r_num_removed_studies :: nat

definition initial_sync_state :: sync_state where
  "initial_sync_state = \<lparr> num_new_studies = 0, num_updates_fetched = 0,
     num_renamed_studies = 0, num_removed_studies = 0, queries = [] \<rparr>"

text \<open>
  The first part of \<^verbatim>\<open>fetchAllStudyChanges\<close>, up to the transaction: the two reads
  and the two loops. It returns the counters and the queries collected.
\<close>

definition collect_study_changes ::
  "env \<Rightarrow> string \<Rightarrow> string \<Rightarrow> string \<Rightarrow> world \<Rightarrow> (error + sync_state) \<times> world" where
  "collect_study_changes e user_id lichess_username lichess_access_token w =
     (let existing_studies = findMany_existing (db w) user_id in
      case fetchStudiesMetadata e lichess_username lichess_access_token of
        Inl ex \<Rightarrow> (Inl ex, w)
      | Inr lichess_studies \<Rightarrow>
          let lichess_study_ids = map sm_id lichess_studies in
          (case sync_lichess_studies e user_id lichess_username lichess_access_token
                  existing_studies lichess_studies initial_sync_state w of
             (Inl ex, w1) \<Rightarrow> (Inl ex, w1)
           | (Inr s, w1) \<Rightarrow>
               (Inr (find_deleted_studies lichess_study_ids existing_studies s), w1)))"

text \<open>
  The second part: the transaction, whose rejection is thrown again as a new error (the
  two assignments after the \<^verbatim>\<open>throw\<close> are never reached), the update of the user's
  time of the last check, and the counters returned.
\<close>

definition commit_study_changes ::
  "env \<Rightarrow> string \<Rightarrow> sync_state \<Rightarrow> world \<Rightarrow> (error + sync_result) \<times> world" where
  "commit_study_changes e user_id s w =
     (case transaction e (db w) (queries s) of
        Inl ex \<Rightarrow> (Inl (Error (''Exception renaming study: '' @ message ex)), w)
      | Inr d' \<Rightarrow>
          let w1 = w \<lparr> db := d', ticks := Suc (ticks w) \<rparr> in
          (case user_update user_id (clock e (ticks w)) (db w1) of
             Inl ex \<Rightarrow> (Inl ex, w1)
           | Inr d'' \<Rightarrow>
               (Inr \<lparr> r_num_new_studies = num_new_studies s,
                      r_num_updates_fetched = num_updates_fetched s,
                      r_num_renamed_studies = num_renamed_studies s,
                      r_num_removed_studies = num_removed_studies s \<rparr>,
                w1 \<lparr> db := d'' \<rparr>)))"

text \<open>
  \<^verbatim>\<open>fetchAllStudyChanges( user_id, prisma, lichess_username, lichess_access_token )\<close>.
\<close>

definition fetchAllStudyChanges ::
  "env \<Rightarrow> string \<Rightarrow> string \<Rightarrow> string \<Rightarrow> world \<Rightarrow> (error + sync_result) \<times> world" where
  "fetchAllStudyChanges e user_id lichess_username lichess_access_token w =
     (case collect_study_changes e user_id lichess_username lichess_access_token w of
        (Inl ex, w1) \<Rightarrow> (Inl ex, w1)
      | (Inr s, w1) \<Rightarrow> commit_study_changes e user_id s w1)"

section \<open>Notions of the specification\<close>

text \<open>
  A move that has no owning collection besides the study: no Pgn owns it and the study
  is its only study.
\<close>

definition exclusively_owned :: "nat \<Rightarrow> move_row \<Rightarrow> bool" where
  "exclusively_owned study_id m \<longleftrightarrow> mv_pgns m = [] \<and> set (mv_studies m) = {study_id}"

text \<open>
  What un-inclusion is to do to a move: soft-delete it when the study was its only
  owner, and remove its edge to the study.
\<close>

definition detach_study :: "nat \<Rightarrow> move_row \<Rightarrow> move_row" where
  "detach_study study_id m =
     m \<lparr> mv_deleted := (mv_deleted m \<or> exclusively_owned study_id m),
         mv_studies := removeAll study_id (mv_studies m) \<rparr>"

definition unincluded_db :: "nat \<Rightarrow> database \<Rightarrow> database" where
  "unincluded_db study_id d =
     d \<lparr> LichessStudy := map (\<lambda>r. if ls_id r = study_id then r \<lparr> ls_included := False \<rparr> else r)
                            (LichessStudy d),
         Move := map (detach_study study_id) (Move d) \<rparr>"

text \<open>The invariant of the data model: a move with an owning collection is not deleted.\<close>

definition move_invariant :: "database \<Rightarrow> bool" where
  "move_invariant d \<longleftrightarrow>
     (\<forall>m \<in> set (Move d). mv_pgns m \<noteq> [] \<or> mv_studies m \<noteq> [] \<longrightarrow> \<not> mv_deleted m)"

text \<open>The ids of the moves are a primary key, given out in increasing order.\<close>

definition moves_wf :: "database \<Rightarrow> bool" where
  "moves_wf d \<longleftrightarrow>
     distinct (map mv_id (Move d)) \<and> (\<forall>m \<in> set (Move d). mv_id m < next_move_id d)"

text \<open>The parsed move is in the table under its key, owned by the study and not deleted.\<close>

definition owned_undeleted :: "string \<Rightarrow> nat \<Rightarrow> database \<Rightarrow> parsed_move \<Rightarrow> bool" where
  "owned_undeleted user_id study_id d move \<longleftrightarrow>
     (\<exists>m \<in> set (Move d). move_key_matches user_id move m \<and>
        study_id \<in> set (mv_studies m) \<and> \<not> mv_deleted m)"

subsection \<open>Synchronisation\<close>




text \<open>
  A query that changes no edge of the move graph and no move: an update of a study
  without \<^verbatim>\<open>moves\<close>, or the deletion of a study.
\<close>

fun structural_query :: "query \<Rightarrow> bool" where
  "structural_query (StudyUpdate i dt) \<longleftrightarrow> d_moves_set dt = None"
| "structural_query (StudyDelete i) \<longleftrightarrow> True"
| "structural_query (MoveUpsert u m i) \<longleftrightarrow> False"
| "structural_query (MoveUpdateDeleted i b) \<longleftrightarrow> False"

text \<open>The study a query writes to, if any.\<close>

fun query_target :: "query \<Rightarrow> nat option" where
  "query_target (StudyUpdate i dt) = Some i"
| "query_target (StudyDelete i) = Some i"
| "query_target (MoveUpsert u m i) = None"
| "query_target (MoveUpdateDeleted i b) = None"

text \<open>
  The snapshot \<^verbatim>\<open>existing_studies\<close> agrees with the database: each of its studies is
  in the table under its id, with the same owner, Lichess id and flags.
\<close>

definition snapshot_current :: "string \<Rightarrow> existing_study list \<Rightarrow> database \<Rightarrow> bool" where
  "snapshot_current user_id existing_studies d \<longleftrightarrow>
     (\<forall>es \<in> set existing_studies.
        \<exists>row. findUnique d (ls_id (es_study es)) = Some row \<and>
          ls_userId row = user_id \<and>
          ls_lichessId row = ls_lichessId (es_study es) \<and>
          ls_included row = ls_included (es_study es) \<and>
          ls_hidden row = ls_hidden (es_study es) \<and>
          ls_removedOnLichess row = ls_removedOnLichess (es_study es))"

text \<open>
  A local study that is absent from the remote set and is counted as removed: it is not
  included, or it is included and not yet flagged.
\<close>

definition counted_as_removed :: "string list \<Rightarrow> existing_study \<Rightarrow> bool" where
  "counted_as_removed lichess_study_ids es \<longleftrightarrow>
     ls_lichessId (es_study es) \<notin> set lichess_study_ids \<and>
     (ls_included (es_study es) \<longrightarrow> \<not> ls_removedOnLichess (es_study es))"

text \<open>
  The counters and queries after the two tests of the loop body that come before the
  test for a content change: the flag \<^verbatim>\<open>removedOnLichess\<close> is cleared when it is set,
  and the study is renamed when the names differ.
\<close>

definition restore_and_rename :: "existing_study \<Rightarrow> study_metadata \<Rightarrow> sync_state \<Rightarrow> sync_state" where
  "restore_and_rename existing_study lichess_study s =
     (let s1 = (if ls_removedOnLichess (es_study existing_study)
                then s \<lparr> queries := queries s @
                       [StudyUpdate (ls_id (es_study existing_study))
                          (no_data \<lparr> d_removedOnLichess := Some False \<rparr>)] \<rparr>
                else s)
      in if ls_name (es_study existing_study) \<noteq> sm_name lichess_study
         then s1 \<lparr> queries := queries s1 @
                [StudyUpdate (ls_id (es_study existing_study))
                   (no_data \<lparr> d_name := Some (sm_name lichess_study) \<rparr>)],
                  num_renamed_studies := num_renamed_studies s1 + 1 \<rparr>
         else s1)"

text \<open>
  Every study of the first database is still in the second one, under its id and with
  the same owner, Lichess id and flags.
\<close>

definition studies_kept :: "database \<Rightarrow> database \<Rightarrow> bool" where
  "studies_kept d d' \<longleftrightarrow>
     (\<forall>i row. findUnique d i = Some row \<longrightarrow>
        (\<exists>row'. findUnique d' i = Some row' \<and>
           ls_userId row' = ls_userId row \<and>
           ls_lichessId row' = ls_lichessId row \<and>
           ls_included row' = ls_included row \<and>
           ls_hidden row' = ls_hidden row \<and>
           ls_removedOnLichess row' = ls_removedOnLichess row))"

text \<open>The queries the second loop pushes for one study of the snapshot.\<close>

definition removal_queries :: "string list \<Rightarrow> existing_study \<Rightarrow> query list" where
  "removal_queries lichess_study_ids es =
     (if counted_as_removed lichess_study_ids es
      then if ls_included (es_study es)
           then [StudyUpdate (ls_id (es_study es)) (no_data \<lparr> d_removedOnLichess := Some True \<rparr>)]
           else [StudyDelete (ls_id (es_study es))]
      else [])"

text \<open>
  A query of the first loop: it changes no move, and it writes to a study of the snapshot
  whose Lichess id is among the given remote ids.
\<close>

definition from_remote :: "existing_study list \<Rightarrow> string set \<Rightarrow> query \<Rightarrow> bool" where
  "from_remote existing ids q \<longleftrightarrow>
     structural_query q \<and>
     (\<exists>es \<in> set existing. ls_lichessId (es_study es) \<in> ids \<and>
        query_target q = Some (ls_id (es_study es)))"

section \<open>Example data\<close>

definition ex_study :: "nat \<Rightarrow> string \<Rightarrow> string \<Rightarrow> string \<Rightarrow> bool \<Rightarrow> bool \<Rightarrow> lichess_study" where
  "ex_study i lichess_id user_id pgn included hidden =
     \<lparr> ls_id = i, ls_lichessId = lichess_id, ls_userId = user_id, ls_lastModifiedOnLichess = 0,
       ls_lastFetched = 0, ls_name = ''X'', ls_pgn = pgn, ls_guessedColor = ''w'',
       ls_previewFen = ''fen'', ls_included = included, ls_hidden = hidden,
       ls_removedOnLichess = False, ls_repForWhite = (if included then Some True else None) \<rparr>"

definition ex_move :: "nat \<Rightarrow> string \<Rightarrow> string \<Rightarrow> bool \<Rightarrow> nat list \<Rightarrow> nat list \<Rightarrow> move_row" where
  "ex_move i from_fen to_fen deleted pgns studies =
     \<lparr> mv_id = i, mv_userId = ''u'', mv_repForWhite = True, mv_ownMove = True,
       mv_fromFen = from_fen, mv_toFen = to_fen, mv_deleted = deleted, mv_pgns = pgns,
       mv_studies = studies \<rparr>"

text \<open>
  Study 1 is included and owns five moves, three of them alone; study 2 is not
  included; study 3 is included; study 4 is hidden; study 5 is included and flagged as
  removed on Lichess. Move 6 is soft-deleted.
\<close>

definition ex_db :: database where
  "ex_db = \<lparr> LichessStudy = [ex_study 1 ''a'' ''u'' ''p1'' True False,
                              ex_study 2 ''b'' ''u'' ''p2'' False False,
                              ex_study 3 ''d'' ''u'' ''p3'' True False,
                              ex_study 4 ''h'' ''u'' ''p4'' False True,
                              (ex_study 5 ''f'' ''u'' ''p5'' True False) \<lparr> ls_removedOnLichess := True \<rparr>],
             LichessStudyUpdate = [],
             Move = [ex_move 1 ''f0'' ''f1'' False [] [1],
                     ex_move 2 ''f1'' ''f2'' False [] [1],
                     ex_move 3 ''f2'' ''f3'' False [] [1],
                     ex_move 4 ''f3'' ''f4'' False [] [1, 3],
                     ex_move 5 ''f4'' ''f5'' False [7] [1],
                     ex_move 6 ''g0'' ''g1'' True [] []],
             User = [\<lparr> u_id = ''u'', u_lastRepertoireUpdateCheck = None \<rparr>],
             next_study_id = 6, next_move_id = 7 \<rparr>"

definition ex_parsed :: "parsed_move list" where
  "ex_parsed = [\<lparr> pm_repForWhite = True, pm_ownMove = True, pm_fromFen = ''g0'', pm_toFen = ''g1'' \<rparr>,
                \<lparr> pm_repForWhite = True, pm_ownMove = False, pm_fromFen = ''g1'', pm_toFen = ''g2'' \<rparr>]"

text \<open>
  Lichess reports study \<open>a\<close> renamed and modified, a new study \<open>c\<close> and study \<open>h\<close>
  modified; studies \<open>b\<close>, \<open>d\<close> and \<open>f\<close> are gone.
\<close>

definition ex_remote :: "study_metadata list" where
  "ex_remote = [\<lparr> sm_id = ''a'', sm_name = ''Y'', sm_updatedAt = 10 \<rparr>,
                \<lparr> sm_id = ''c'', sm_name = ''C'', sm_updatedAt = 7 \<rparr>,
                \<lparr> sm_id = ''h'', sm_name = ''X'', sm_updatedAt = 10 \<rparr>]"

definition ex_env :: env where
  "ex_env = \<lparr> fetchStudiesMetadata = (\<lambda>_ _. Inr ex_remote),
              fetchStudy = (\<lambda>_ lichess_id _ _. Inr \<lparr> fs_pgn = ''p2'', fs_lastModified = 5 \<rparr>),
              pgndbToMoves = (\<lambda>pgn _ _. if pgn = ''p2'' then ex_parsed else []),
              guessColor = (\<lambda>_. ''w''),
              makePreviewFen = (\<lambda>_. ''fen''),
              clock = (\<lambda>n. 100 + int n),
              transaction_fault = (\<lambda>_ _. None) \<rparr>"

definition ex_world :: world where
  "ex_world = \<lparr> db = ex_db, ticks = 0, fetch_log = [] \<rparr>"

text \<open>The same collaborators with a storage engine that rejects every batch.\<close>

definition ex_env_fault :: env where
  "ex_env_fault = ex_env \<lparr> transaction_fault := (\<lambda>_ _. Some ''deadlock'') \<rparr>"











section \<open>Properties of the storage client\<close>

lemma run_queries_append:
  "run_queries (qs @ rs) d = (case run_queries qs d of Inl e \<Rightarrow> Inl e | Inr d' \<Rightarrow> run_queries rs d')"
  by (induction qs arbitrary: d) (auto split: sum.splits)

lemma set_study_fields_id [simp]: "ls_id (set_study_fields dt r) = ls_id r"
  by (simp add: set_study_fields_def)

lemma find_study_map:
  "find (\<lambda>r. ls_id r = i) (map (\<lambda>r. if ls_id r = j then set_study_fields dt r else r) rows) =
   map_option (\<lambda>r. if ls_id r = j then set_study_fields dt r else r) (find (\<lambda>r. ls_id r = i) rows)"
  by (induction rows) auto

lemma find_study_filter:
  "find (\<lambda>r. ls_id r = i) (filter (\<lambda>r. ls_id r \<noteq> j) rows) =
   (if i = j then None else find (\<lambda>r. ls_id r = i) rows)"
  by (induction rows) auto

lemma is_orphan_attached:
  assumes "study_id \<in> set (mv_studies m)"
  shows "is_orphan m \<longleftrightarrow> exclusively_owned study_id m"
proof
  assume o: "is_orphan m"
  have "card (set (mv_studies m)) \<ge> 1"
    using assms by (metis List.finite_set One_nat_def Suc_leI card_gt_0_iff empty_iff)
  with o have c: "card (set (mv_pgns m)) = 0" "card (set (mv_studies m)) = 1"
    unfolding is_orphan_def by arith+
  from c(1) have p: "mv_pgns m = []" by simp
  from c(2) obtain x where "set (mv_studies m) = {x}" by (auto simp: card_1_singleton_iff)
  with assms p show "exclusively_owned study_id m"
    by (auto simp: exclusively_owned_def)
next
  assume "exclusively_owned study_id m"
  then show "is_orphan m" by (simp add: exclusively_owned_def is_orphan_def)
qed

lemma map_mv_id_deleted:
  "map mv_id (map (\<lambda>m. if P m then m \<lparr> mv_deleted := b \<rparr> else m) xs) = map mv_id xs"
  by (induction xs) auto

lemma run_soft_deletes:
  "mv_id ` set ms \<subseteq> mv_id ` set (Move d) \<Longrightarrow>
   run_queries (map (\<lambda>m. MoveUpdateDeleted (mv_id m) True) ms) d =
     Inr (d \<lparr> Move := map (\<lambda>m. if mv_id m \<in> mv_id ` set ms then m \<lparr> mv_deleted := True \<rparr> else m)
                         (Move d) \<rparr>)"
proof (induction ms arbitrary: d)
  case Nil
  then show ?case by simp
next
  case (Cons a ms)
  let ?d1 = "d \<lparr> Move := map (\<lambda>m. if mv_id m = mv_id a then m \<lparr> mv_deleted := True \<rparr> else m) (Move d) \<rparr>"
  from Cons.prems have ex: "list_ex (\<lambda>m. mv_id m = mv_id a) (Move d)"
    by (auto simp: list_ex_iff)
  have "map mv_id (Move ?d1) = map mv_id (Move d)"
    by (simp add: map_mv_id_deleted)
  then have ids: "mv_id ` set (Move ?d1) = mv_id ` set (Move d)"
    by (metis set_map)
  with Cons.prems have "mv_id ` set ms \<subseteq> mv_id ` set (Move ?d1)" by auto
  from Cons.IH [OF this] ex show ?case
    by (auto simp: move_update_deleted_def intro!: arg_cong [where f = "\<lambda>x. Move_update x d"])
qed


lemma orphans_of_study:
  "filter is_orphan (study_moves d study_id) = filter (exclusively_owned study_id) (Move d)"
proof -
  have "\<And>m. (study_id \<in> set (mv_studies m) \<and> is_orphan m) = exclusively_owned study_id m"
    using is_orphan_attached by (auto simp: exclusively_owned_def)
  then show ?thesis by (simp add: study_moves_def)
qed

lemma orphan_ids:
  assumes "distinct (map mv_id (Move d))" and "m \<in> set (Move d)"
  shows "mv_id m \<in> mv_id ` set (filter (exclusively_owned study_id) (Move d))
           \<longleftrightarrow> exclusively_owned study_id m"
proof -
  from assms(1) have "inj_on mv_id (set (Move d))" by (simp add: distinct_map)
  with assms(2) show ?thesis by (auto simp: inj_on_def)
qed

lemma set_study_fields_uninclude:
  "set_study_fields (no_data \<lparr> d_included := Some False, d_moves_set := Some [] \<rparr>) r =
     r \<lparr> ls_included := False \<rparr>"
  by (simp add: set_study_fields_def no_data_def)

lemma uninclude_batch:
  assumes f: "findUnique d study_id = Some study" and dist: "distinct (map mv_id (Move d))"
  shows "run_queries (orphanMoveSoftDeletionsQueries (study_moves d study_id) @
            [StudyUpdate study_id (no_data \<lparr> d_included := Some False, d_moves_set := Some [] \<rparr>)]) d
         = Inr (unincluded_db study_id d)"
proof -
  let ?os = "filter (exclusively_owned study_id) (Move d)"
  let ?d1 = "d \<lparr> Move := map (\<lambda>m. if mv_id m \<in> mv_id ` set ?os then m \<lparr> mv_deleted := True \<rparr> else m)
                         (Move d) \<rparr>"
  have sub: "mv_id ` set ?os \<subseteq> mv_id ` set (Move d)" by auto
  have 1: "run_queries (orphanMoveSoftDeletionsQueries (study_moves d study_id)) d = Inr ?d1"
    unfolding orphanMoveSoftDeletionsQueries_def orphans_of_study
    by (rule run_soft_deletes [OF sub])
  have f1: "findUnique ?d1 study_id = Some study"
    using f by (simp add: findUnique_def)
  have mv: "map (set_study_moves study_id []) (Move ?d1) = map (detach_study study_id) (Move d)"
    using orphan_ids [OF dist]
    by (auto simp: set_study_moves_def detach_study_def)
  have 2: "study_update study_id (no_data \<lparr> d_included := Some False, d_moves_set := Some [] \<rparr>) ?d1
           = Inr (unincluded_db study_id d)"
  proof -
    have "study_update study_id (no_data \<lparr> d_included := Some False, d_moves_set := Some [] \<rparr>) ?d1
           = Inr (?d1 \<lparr> LichessStudy := map (\<lambda>r. if ls_id r = study_id then set_study_fields
                     (no_data \<lparr> d_included := Some False, d_moves_set := Some [] \<rparr>) r else r)
                       (LichessStudy ?d1),
                   Move := map (set_study_moves study_id []) (Move ?d1) \<rparr>)"
      using f1 by (simp add: study_update_def)
    also have "\<dots> = Inr (unincluded_db study_id d)"
      unfolding mv set_study_fields_uninclude by (simp add: unincluded_db_def)
    finally show ?thesis .
  qed
  show ?thesis
    by (simp only: run_queries_append 1 2 sum.case run_queries.simps run_query.simps)
qed

lemma study_update_findUnique:
  "study_update i dt d = Inr d' \<Longrightarrow>
   findUnique d' j = map_option (\<lambda>r. if ls_id r = i then set_study_fields dt r else r) (findUnique d j)"
  by (auto simp: study_update_def findUnique_def find_study_map split: option.splits)

lemma study_delete_findUnique:
  "study_delete i d = Inr d' \<Longrightarrow> findUnique d' j = (if j = i then None else findUnique d j)"
  by (auto simp: study_delete_def findUnique_def find_study_filter split: option.splits)

lemma move_upsert_LichessStudy:
  "move_upsert u m i d = Inr d' \<Longrightarrow> LichessStudy d' = LichessStudy d"
  by (auto simp: move_upsert_def split: option.splits if_splits)

lemma run_upserts_LichessStudy:
  "run_queries (map (\<lambda>move. MoveUpsert u move i) ms) d = Inr d' \<Longrightarrow> LichessStudy d' = LichessStudy d"
  by (induction ms arbitrary: d) (auto split: sum.splits dest: move_upsert_LichessStudy)

lemma run_queries_snoc:
  "run_queries (qs @ [q]) d = Inr d' \<Longrightarrow> \<exists>dm. run_queries qs d = Inr dm \<and> run_query q dm = Inr d'"
  by (auto simp: run_queries_append split: sum.splits)

lemma includeStudy_success:
  assumes "includeStudy e study_id user_id repForWhite onlyVariant w = (Inr u, w1)"
  obtains study dm where "findUnique (db w) study_id = Some study" "ls_userId study = user_id"
           "\<not> ls_hidden study" "\<not> ls_included study"
           "run_queries (map (\<lambda>move. MoveUpsert user_id move study_id)
              (pgndbToMoves e (ls_pgn study) (Some repForWhite) (Some True))) (db w) = Inr dm"
           "study_update study_id (no_data \<lparr> d_included := Some True, d_repForWhite := Some repForWhite \<rparr>) dm
             = Inr (db w1)" "w1 = w \<lparr> db := db w1 \<rparr>"
proof (cases "findUnique (db w) study_id")
  case None
  with assms show ?thesis by (simp add: includeStudy_def)
next
  case (Some study)
  from assms Some have c: "ls_userId study = user_id" "\<not> ls_hidden study" "\<not> ls_included study"
    by (simp_all add: includeStudy_def split: if_splits)
  let ?qs = "map (\<lambda>move. MoveUpsert user_id move study_id)
              (pgndbToMoves e (ls_pgn study) (Some repForWhite) (Some True)) @
             [StudyUpdate study_id (no_data \<lparr> d_included := Some True, d_repForWhite := Some repForWhite \<rparr>)]"
  from assms Some c have t: "(case transaction e (db w) ?qs of
           Inl ex \<Rightarrow> (Inl (Error (''Exception inserting moves into database: '' @ message ex)), w)
         | Inr d' \<Rightarrow> (Inr (), w \<lparr> db := d' \<rparr>)) = (Inr u, w1)"
    by (simp add: includeStudy_def Let_def)
  then obtain d' where d': "transaction e (db w) ?qs = Inr d'" "w1 = w \<lparr> db := d' \<rparr>"
    by (cases "transaction e (db w) ?qs") auto
  from d'(1) have "run_queries ?qs (db w) = Inr d'"
    by (simp add: transaction_def split: option.splits)
  from run_queries_snoc [OF this] obtain dm where
    "run_queries (map (\<lambda>move. MoveUpsert user_id move study_id)
              (pgndbToMoves e (ls_pgn study) (Some repForWhite) (Some True))) (db w) = Inr dm"
    "study_update study_id (no_data \<lparr> d_included := Some True, d_repForWhite := Some repForWhite \<rparr>) dm
             = Inr d'"
    by auto
  with Some c d'(2) that show ?thesis by simp
qed

lemma includeStudy_failure_keeps_world:
  assumes "includeStudy e study_id user_id repForWhite onlyVariant w = (Inl ex, w')"
  shows "w' = w"
proof (cases "findUnique (db w) study_id")
  case None
  with assms show ?thesis by (simp add: includeStudy_def)
next
  case (Some study)
  show ?thesis
  proof (cases "ls_userId study \<noteq> user_id \<or> ls_hidden study \<or> ls_included study")
    case True
    with assms Some show ?thesis by (auto simp: includeStudy_def split: if_splits)
  next
    case False
    let ?qs = "map (\<lambda>move. MoveUpsert user_id move study_id)
              (pgndbToMoves e (ls_pgn study) (Some repForWhite) (Some True)) @
             [StudyUpdate study_id (no_data \<lparr> d_included := Some True, d_repForWhite := Some repForWhite \<rparr>)]"
    from assms Some False have "(case transaction e (db w) ?qs of
           Inl ex \<Rightarrow> (Inl (Error (''Exception inserting moves into database: '' @ message ex)), w)
         | Inr d' \<Rightarrow> (Inr (), w \<lparr> db := d' \<rparr>)) = (Inl ex, w')"
      by (simp add: includeStudy_def Let_def)
    then show ?thesis by (cases "transaction e (db w) ?qs") auto
  qed
qed




lemma includeStudy_precondition:
  assumes "findUnique (db w) study_id = Some study"
        "ls_userId study \<noteq> user_id \<or> ls_hidden study \<or> ls_included study"
  shows "\<exists>msg. includeStudy e study_id user_id repForWhite onlyVariant w = (Inl (Error msg), w)"
  using assms
  by (cases "ls_userId study \<noteq> user_id"; cases "ls_hidden study"; cases "ls_included study")
     (simp_all add: includeStudy_def)



lemma set_study_fields_include:
  "set_study_fields (no_data \<lparr> d_included := Some True, d_repForWhite := Some b \<rparr>) r =
     r \<lparr> ls_included := True, ls_repForWhite := Some b \<rparr>"
  by (simp add: set_study_fields_def no_data_def)

lemma includeStudy_marks_included:
  assumes "includeStudy e study_id user_id repForWhite onlyVariant w = (Inr u, w1)"
  shows "\<exists>study'. findUnique (db w1) study_id = Some study' \<and> ls_included study' \<and>
           ls_userId study' = user_id \<and> \<not> ls_hidden study'"
proof -
  from assms obtain study dm where
    f: "findUnique (db w) study_id = Some study" and o: "ls_userId study = user_id"
    and h: "\<not> ls_hidden study"
    and r: "run_queries (map (\<lambda>move. MoveUpsert user_id move study_id)
              (pgndbToMoves e (ls_pgn study) (Some repForWhite) (Some True))) (db w) = Inr dm"
    and su: "study_update study_id
               (no_data \<lparr> d_included := Some True, d_repForWhite := Some repForWhite \<rparr>) dm = Inr (db w1)"
    by (rule includeStudy_success)
  have i: "ls_id study = study_id"
    using f by (auto simp: findUnique_def find_Some_iff)
  from run_upserts_LichessStudy [OF r] f have "findUnique dm study_id = Some study"
    by (simp add: findUnique_def)
  with study_update_findUnique [OF su, of study_id] i
  have "findUnique (db w1) study_id =
          Some (study \<lparr> ls_included := True, ls_repForWhite := Some repForWhite \<rparr>)"
    by (simp add: set_study_fields_include)
  with o h show ?thesis by simp
qed

lemma includeStudy_twice:
  assumes "includeStudy e study_id user_id repForWhite onlyVariant w = (Inr u, w1)"
  shows "includeStudy e study_id user_id repForWhite' onlyVariant' w1 =
           (Inl (Error ''Adding Lichess study failed: study is already included''), w1)"
proof -
  from includeStudy_marks_included [OF assms] obtain study' where
    "findUnique (db w1) study_id = Some study'" "ls_included study'"
    "ls_userId study' = user_id" "\<not> ls_hidden study'"
    by blast
  then show ?thesis
    by (simp add: includeStudy_def)
qed


lemma move_upsert_inv:
  assumes "move_upsert u mv i d = Inr d'" "moves_wf d" "move_invariant d"
  shows "moves_wf d' \<and> move_invariant d'"
proof (cases "list_ex (move_key_matches u mv) (Move d)")
  case True
  with assms(1) have d': "d' = d \<lparr> Move := map (\<lambda>r. if move_key_matches u mv r
                            then r \<lparr> mv_studies := List.insert i (mv_studies r),
                                     mv_deleted := False \<rparr>
                            else r) (Move d) \<rparr>"
    by (auto simp: move_upsert_def split: option.splits)
  have "map mv_id (Move d') = map mv_id (Move d)"
    unfolding d' by (induction "Move d") auto
  moreover have "next_move_id d' = next_move_id d" unfolding d' by simp
  ultimately have "moves_wf d'"
    using assms(2) unfolding moves_wf_def by (metis (no_types, lifting) imageE image_eqI set_map)
  moreover have "move_invariant d'"
    using assms(3) unfolding d' move_invariant_def by auto
  ultimately show ?thesis ..
next
  case False
  with assms(1) have d': "d' = d \<lparr> Move := Move d @
                     [\<lparr> mv_id = next_move_id d, mv_userId = u,
                        mv_repForWhite = pm_repForWhite mv, mv_ownMove = pm_ownMove mv,
                        mv_fromFen = pm_fromFen mv, mv_toFen = pm_toFen mv,
                        mv_deleted = False, mv_pgns = [], mv_studies = [i] \<rparr>],
                     next_move_id := Suc (next_move_id d) \<rparr>"
    by (auto simp: move_upsert_def split: option.splits)
  have "moves_wf d'"
    using assms(2) unfolding d' moves_wf_def by (auto simp: less_Suc_eq)
  moreover have "move_invariant d'"
    using assms(3) unfolding d' move_invariant_def by auto
  ultimately show ?thesis ..
qed

lemma run_upserts_inv:
  "run_queries (map (\<lambda>move. MoveUpsert u move i) ms) d = Inr d' \<Longrightarrow> moves_wf d \<Longrightarrow>
   move_invariant d \<Longrightarrow> moves_wf d' \<and> move_invariant d'"
proof (induction ms arbitrary: d)
  case Nil
  then show ?case by simp
next
  case (Cons a ms)
  from Cons.prems(1) obtain d1 where 1: "move_upsert u a i d = Inr d1"
    and 2: "run_queries (map (\<lambda>move. MoveUpsert u move i) ms) d1 = Inr d'"
    by (auto split: sum.splits)
  from move_upsert_inv [OF 1 Cons.prems(2,3)] Cons.IH [OF 2] show ?case by blast
qed

lemma move_upsert_owned:
  assumes "move_upsert u mv i d = Inr d'"
  shows "owned_undeleted u i d' mv"
proof (cases "list_ex (move_key_matches u mv) (Move d)")
  case True
  then obtain r where r: "r \<in> set (Move d)" "move_key_matches u mv r"
    by (auto simp: list_ex_iff)
  from True assms have d': "Move d' = map (\<lambda>r. if move_key_matches u mv r
                            then r \<lparr> mv_studies := List.insert i (mv_studies r),
                                     mv_deleted := False \<rparr>
                            else r) (Move d)"
    by (auto simp: move_upsert_def split: option.splits)
  from r have "r \<lparr> mv_studies := List.insert i (mv_studies r), mv_deleted := False \<rparr> \<in> set (Move d')"
    unfolding d' by force
  moreover from r(2) have "move_key_matches u mv
      (r \<lparr> mv_studies := List.insert i (mv_studies r), mv_deleted := False \<rparr>)"
    by (simp add: move_key_matches_def)
  ultimately show ?thesis
    unfolding owned_undeleted_def by force
next
  case False
  with assms have d': "Move d' = Move d @
                     [\<lparr> mv_id = next_move_id d, mv_userId = u,
                        mv_repForWhite = pm_repForWhite mv, mv_ownMove = pm_ownMove mv,
                        mv_fromFen = pm_fromFen mv, mv_toFen = pm_toFen mv,
                        mv_deleted = False, mv_pgns = [], mv_studies = [i] \<rparr>]"
    by (auto simp: move_upsert_def split: option.splits)
  show ?thesis
    unfolding owned_undeleted_def d' by (simp add: move_key_matches_def)
qed

lemma move_upsert_keeps_owned:
  assumes "move_upsert u mv2 i d = Inr d'" "owned_undeleted u i d mv"
  shows "owned_undeleted u i d' mv"
proof -
  from assms(2) obtain m where m: "m \<in> set (Move d)" "move_key_matches u mv m"
    "i \<in> set (mv_studies m)" "\<not> mv_deleted m"
    unfolding owned_undeleted_def by blast
  show ?thesis
  proof (cases "list_ex (move_key_matches u mv2) (Move d)")
    case True
    with assms(1) have d': "Move d' = map (\<lambda>r. if move_key_matches u mv2 r
                            then r \<lparr> mv_studies := List.insert i (mv_studies r),
                                     mv_deleted := False \<rparr>
                            else r) (Move d)"
      by (auto simp: move_upsert_def split: option.splits)
    let ?m' = "if move_key_matches u mv2 m
                then m \<lparr> mv_studies := List.insert i (mv_studies m), mv_deleted := False \<rparr> else m"
    from m(1) have "?m' \<in> set (Move d')" unfolding d' by (simp add: image_iff) blast
    moreover from m have "move_key_matches u mv ?m' \<and> i \<in> set (mv_studies ?m') \<and> \<not> mv_deleted ?m'"
      by (simp add: move_key_matches_def)
    ultimately show ?thesis unfolding owned_undeleted_def by blast
  next
    case False
    with assms(1) have "set (Move d) \<subseteq> set (Move d')"
      by (auto simp: move_upsert_def split: option.splits)
    with m show ?thesis unfolding owned_undeleted_def by blast
  qed
qed

lemma run_upserts_keep_owned:
  "run_queries (map (\<lambda>move. MoveUpsert u move i) ms) d = Inr d' \<Longrightarrow> owned_undeleted u i d mv \<Longrightarrow>
   owned_undeleted u i d' mv"
proof (induction ms arbitrary: d)
  case Nil
  then show ?case by simp
next
  case (Cons a ms)
  from Cons.prems(1) obtain d1 where 1: "move_upsert u a i d = Inr d1"
    and 2: "run_queries (map (\<lambda>move. MoveUpsert u move i) ms) d1 = Inr d'"
    by (auto split: sum.splits)
  from Cons.IH [OF 2 move_upsert_keeps_owned [OF 1 Cons.prems(2)]] show ?case .
qed

lemma run_upserts_owned:
  "run_queries (map (\<lambda>move. MoveUpsert u move i) ms) d = Inr d' \<Longrightarrow> mv \<in> set ms \<Longrightarrow>
   owned_undeleted u i d' mv"
proof (induction ms arbitrary: d)
  case Nil
  then show ?case by simp
next
  case (Cons a ms)
  from Cons.prems(1) obtain d1 where 1: "move_upsert u a i d = Inr d1"
    and 2: "run_queries (map (\<lambda>move. MoveUpsert u move i) ms) d1 = Inr d'"
    by (auto split: sum.splits)
  show ?case
  proof (cases "mv = a")
    case True
    with move_upsert_owned [OF 1] run_upserts_keep_owned [OF 2] show ?thesis by simp
  next
    case False
    with Cons.prems(2) have "mv \<in> set ms" by simp
    from Cons.IH [OF 2 this] show ?thesis .
  qed
qed

lemma study_update_Move:
  "study_update i dt d = Inr d' \<Longrightarrow> d_moves_set dt = None \<Longrightarrow>
   Move d' = Move d \<and> next_move_id d' = next_move_id d"
  by (auto simp: study_update_def split: option.splits)

lemma removeAll_only: "set xs = {i} \<Longrightarrow> removeAll i xs = []"
  by (metis Diff_cancel set_empty set_removeAll)

lemma unincluded_db_inv:
  assumes "moves_wf d" "move_invariant d"
  shows "moves_wf (unincluded_db i d) \<and> move_invariant (unincluded_db i d)"
proof -
  have "map mv_id (Move (unincluded_db i d)) = map mv_id (Move d)"
    by (simp add: unincluded_db_def detach_study_def)
  moreover have "next_move_id (unincluded_db i d) = next_move_id d"
    by (simp add: unincluded_db_def)
  ultimately have "moves_wf (unincluded_db i d)"
    using assms(1) unfolding moves_wf_def by (metis (no_types, lifting) imageE image_eqI set_map)
  moreover have "move_invariant (unincluded_db i d)"
    using assms(2) unfolding move_invariant_def unincluded_db_def
    by (auto simp: detach_study_def exclusively_owned_def removeAll_only)
  ultimately show ?thesis ..
qed

lemma study_delete_inv:
  assumes "study_delete i d = Inr d'" "moves_wf d" "move_invariant d"
  shows "moves_wf d' \<and> move_invariant d'"
proof -
  from assms(1) have d': "Move d' = map (\<lambda>m. m \<lparr> mv_studies := removeAll i (mv_studies m) \<rparr>) (Move d)"
     "next_move_id d' = next_move_id d"
    by (auto simp: study_delete_def split: option.splits)
  have "map mv_id (Move d') = map mv_id (Move d)"
    unfolding d' by simp
  with d'(2) have "moves_wf d'"
    using assms(2) unfolding moves_wf_def by (metis (no_types, lifting) imageE image_eqI set_map)
  moreover have "move_invariant d'"
    using assms(3) unfolding move_invariant_def d' by auto
  ultimately show ?thesis ..
qed



section \<open>Un-inclusion\<close>

text \<open>
  Claim C3. \<^verbatim>\<open>unincludeStudy\<close> fails when the study is not found or belongs to another
  user. Otherwise, when the storage engine accepts the batch, it commits in one
  transaction the soft-deletion of exactly the moves that have no owning collection
  besides this study, the clearing of the flag \<^verbatim>\<open>included\<close> and the removal of every
  edge from the study to a move (\<open>unincluded_db\<close>), and returns the number of the moves
  soft-deleted. Whenever it fails, the database is as before.
\<close>

theorem unincludeStudy_batch:
  "(findUnique (db w) study_id = None \<longrightarrow>
      unincludeStudy e study_id user_id w =
        (Inl (Error (''Study #'' @ string_of_nat study_id @ '' not found'')), w)) \<and>
   (\<forall>study. findUnique (db w) study_id = Some study \<and> ls_userId study \<noteq> user_id \<longrightarrow>
      unincludeStudy e study_id user_id w =
        (Inl (Error ''Study does not belong to this account (are you logged in?)''), w)) \<and>
   (\<forall>study. findUnique (db w) study_id = Some study \<and> ls_userId study = user_id \<and>
        distinct (map mv_id (Move (db w))) \<and> (\<forall>qs. transaction_fault e (db w) qs = None) \<longrightarrow>
      unincludeStudy e study_id user_id w =
        (Inr (length (filter (exclusively_owned study_id) (Move (db w)))),
         w \<lparr> db := unincluded_db study_id (db w) \<rparr>)) \<and>
   (\<forall>ex w'. unincludeStudy e study_id user_id w = (Inl ex, w') \<longrightarrow> w' = w)"
proof (intro conjI allI impI)
  show "unincludeStudy e study_id user_id w =
        (Inl (Error (''Study #'' @ string_of_nat study_id @ '' not found'')), w)"
    if "findUnique (db w) study_id = None"
    using that by (simp add: unincludeStudy_def)
next
  fix study
  assume "findUnique (db w) study_id = Some study \<and> ls_userId study \<noteq> user_id"
  then show "unincludeStudy e study_id user_id w =
        (Inl (Error ''Study does not belong to this account (are you logged in?)''), w)"
    by (simp add: unincludeStudy_def)
next
  fix study
  assume a: "findUnique (db w) study_id = Some study \<and> ls_userId study = user_id \<and>
        distinct (map mv_id (Move (db w))) \<and> (\<forall>qs. transaction_fault e (db w) qs = None)"
  then have "transaction e (db w) (orphanMoveSoftDeletionsQueries (study_moves (db w) study_id) @
            [StudyUpdate study_id (no_data \<lparr> d_included := Some False, d_moves_set := Some [] \<rparr>)])
         = Inr (unincluded_db study_id (db w))"
    by (simp add: transaction_def uninclude_batch)
  with a show "unincludeStudy e study_id user_id w =
        (Inr (length (filter (exclusively_owned study_id) (Move (db w)))),
         w \<lparr> db := unincluded_db study_id (db w) \<rparr>)"
    by (simp add: unincludeStudy_def Let_def orphanMoveSoftDeletionsQueries_def orphans_of_study)
next
  fix ex w'
  assume "unincludeStudy e study_id user_id w = (Inl ex, w')"
  then show "w' = w"
    by (auto simp: unincludeStudy_def Let_def split: option.splits if_splits sum.splits)
qed

theorem unincludeStudy_batch_witness:
  "unincludeStudy ex_env 1 ''u'' ex_world = (Inr 3, ex_world \<lparr> db := unincluded_db 1 ex_db \<rparr>) \<and>
   map mv_deleted (Move (unincluded_db 1 ex_db)) = [True, True, True, False, False, True] \<and>
   map mv_studies (Move (unincluded_db 1 ex_db)) = [[], [], [], [3], [], []] \<and>
   unincludeStudy ex_env 9 ''u'' ex_world = (Inl (Error ''Study #9 not found''), ex_world) \<and>
   unincludeStudy ex_env 1 ''v'' ex_world =
     (Inl (Error ''Study does not belong to this account (are you logged in?)''), ex_world)"
proof -
  have h1: "findUnique (db ex_world) 1 = Some (ex_study 1 ''a'' ''u'' ''p1'' True False)"
    by code_simp
  have h2: "ls_userId (ex_study 1 ''a'' ''u'' ''p1'' True False) = ''u''"
    by (simp add: ex_study_def)
  have h3: "distinct (map mv_id (Move (db ex_world)))" by code_simp
  have h4: "\<forall>qs. transaction_fault ex_env (db ex_world) qs = None"
    by (simp add: ex_env_def)
  have h5: "length (filter (exclusively_owned 1) (Move (db ex_world))) = 3" by code_simp
  have h6: "findUnique (db ex_world) 9 = None" by code_simp
  have h7: "string_of_nat 9 = ''9''" by code_simp
  have h8: "db ex_world = ex_db" by (simp add: ex_world_def)
  have h9: "map mv_deleted (Move (unincluded_db 1 ex_db)) = [True, True, True, False, False, True]"
    by code_simp
  have h10: "map mv_studies (Move (unincluded_db 1 ex_db)) = [[], [], [], [3], [], []]"
    by code_simp
  from unincludeStudy_batch [where w = ex_world and study_id = 1 and user_id = "''u''" and e = ex_env] h1 h2 h3 h4 h5 h8
  have a: "unincludeStudy ex_env 1 ''u'' ex_world = (Inr 3, ex_world \<lparr> db := unincluded_db 1 ex_db \<rparr>)"
    by simp
  from unincludeStudy_batch [where w = ex_world and study_id = 9 and user_id = "''u''" and e = ex_env] h6 h7
  have b: "unincludeStudy ex_env 9 ''u'' ex_world = (Inl (Error ''Study #9 not found''), ex_world)"
    by simp
  from unincludeStudy_batch [where w = ex_world and study_id = 1 and user_id = "''v''" and e = ex_env] h1 h2
  have c: "unincludeStudy ex_env 1 ''v'' ex_world =
     (Inl (Error ''Study does not belong to this account (are you logged in?)''), ex_world)"
    by simp
  from a b c h9 h10 show ?thesis by simp
qed

section \<open>Inclusion\<close>

text \<open>
  Claim C4. \<^verbatim>\<open>includeStudy\<close> fails when the study belongs to another user, is hidden
  or is already included (and when it does not exist). Whenever it fails, for one of
  these reasons or because the transaction is rejected, the state is as before: no flag
  and no edge has changed. After a successful inclusion a second one, with any side and
  any \<^verbatim>\<open>onlyVariant\<close>, fails as already included and leaves the state as the first one
  left it.
\<close>

theorem includeStudy_fails_atomically:
  "(findUnique (db w) study_id = None \<longrightarrow>
      includeStudy e study_id user_id repForWhite onlyVariant w =
        (Inl (PrismaError ''No LichessStudy found''), w)) \<and>
   (\<forall>study. findUnique (db w) study_id = Some study \<and>
        (ls_userId study \<noteq> user_id \<or> ls_hidden study \<or> ls_included study) \<longrightarrow>
      (\<exists>msg. includeStudy e study_id user_id repForWhite onlyVariant w = (Inl (Error msg), w))) \<and>
   (\<forall>ex w'. includeStudy e study_id user_id repForWhite onlyVariant w = (Inl ex, w') \<longrightarrow> w' = w) \<and>
   (\<forall>u w1. includeStudy e study_id user_id repForWhite onlyVariant w = (Inr u, w1) \<longrightarrow>
      (\<forall>repForWhite' onlyVariant'.
         includeStudy e study_id user_id repForWhite' onlyVariant' w1 =
           (Inl (Error ''Adding Lichess study failed: study is already included''), w1)))"
proof (intro conjI allI impI)
  assume "findUnique (db w) study_id = None"
  then show "includeStudy e study_id user_id repForWhite onlyVariant w =
        (Inl (PrismaError ''No LichessStudy found''), w)"
    by (simp add: includeStudy_def)
next
  fix study
  assume "findUnique (db w) study_id = Some study \<and>
        (ls_userId study \<noteq> user_id \<or> ls_hidden study \<or> ls_included study)"
  then show "\<exists>msg. includeStudy e study_id user_id repForWhite onlyVariant w = (Inl (Error msg), w)"
    using includeStudy_precondition by blast
next
  fix ex w'
  assume "includeStudy e study_id user_id repForWhite onlyVariant w = (Inl ex, w')"
  then show "w' = w" by (rule includeStudy_failure_keeps_world)
next
  fix u w1 repForWhite' onlyVariant'
  assume "includeStudy e study_id user_id repForWhite onlyVariant w = (Inr u, w1)"
  then show "includeStudy e study_id user_id repForWhite' onlyVariant' w1 =
           (Inl (Error ''Adding Lichess study failed: study is already included''), w1)"
    by (rule includeStudy_twice)
qed

theorem includeStudy_fails_atomically_witness:
  "(\<exists>msg. includeStudy ex_env 4 ''u'' True None ex_world = (Inl (Error msg), ex_world)) \<and>
   (\<exists>msg. includeStudy ex_env 1 ''u'' True None ex_world = (Inl (Error msg), ex_world)) \<and>
   (\<exists>msg. includeStudy ex_env 2 ''v'' True None ex_world = (Inl (Error msg), ex_world)) \<and>
   fst (includeStudy ex_env 2 ''u'' True None ex_world) = Inr () \<and>
   includeStudy ex_env 2 ''u'' False (Some False) (snd (includeStudy ex_env 2 ''u'' True None ex_world)) =
     (Inl (Error ''Adding Lichess study failed: study is already included''),
      snd (includeStudy ex_env 2 ''u'' True None ex_world))"
proof -
  have h4: "findUnique (db ex_world) 4 = Some (ex_study 4 ''h'' ''u'' ''p4'' False True)"
    by code_simp
  have h1: "findUnique (db ex_world) 1 = Some (ex_study 1 ''a'' ''u'' ''p1'' True False)"
    by code_simp
  have h2: "findUnique (db ex_world) 2 = Some (ex_study 2 ''b'' ''u'' ''p2'' False False)"
    by code_simp
  have f: "ls_hidden (ex_study 4 ''h'' ''u'' ''p4'' False True)"
    "ls_included (ex_study 1 ''a'' ''u'' ''p1'' True False)"
    "ls_userId (ex_study 2 ''b'' ''u'' ''p2'' False False) \<noteq> ''v''"
    by (simp_all add: ex_study_def)
  have ok: "fst (includeStudy ex_env 2 ''u'' True None ex_world) = Inr ()"
    by code_simp
  then have ok': "includeStudy ex_env 2 ''u'' True None ex_world =
      (Inr (), snd (includeStudy ex_env 2 ''u'' True None ex_world))"
    by (metis prod.collapse)
  from includeStudy_fails_atomically
         [where w = ex_world and study_id = 4 and user_id = "''u''" and e = ex_env
            and repForWhite = True and onlyVariant = None] h4 f
  have a: "\<exists>msg. includeStudy ex_env 4 ''u'' True None ex_world = (Inl (Error msg), ex_world)"
    by blast
  from includeStudy_fails_atomically
         [where w = ex_world and study_id = 1 and user_id = "''u''" and e = ex_env
            and repForWhite = True and onlyVariant = None] h1 f
  have b: "\<exists>msg. includeStudy ex_env 1 ''u'' True None ex_world = (Inl (Error msg), ex_world)"
    by blast
  from includeStudy_fails_atomically
         [where w = ex_world and study_id = 2 and user_id = "''v''" and e = ex_env
            and repForWhite = True and onlyVariant = None] h2 f
  have c: "\<exists>msg. includeStudy ex_env 2 ''v'' True None ex_world = (Inl (Error msg), ex_world)"
    by blast
  from includeStudy_fails_atomically
         [where w = ex_world and study_id = 2 and user_id = "''u''" and e = ex_env
            and repForWhite = True and onlyVariant = None] ok'
  have d: "includeStudy ex_env 2 ''u'' False (Some False)
             (snd (includeStudy ex_env 2 ''u'' True None ex_world)) =
     (Inl (Error ''Adding Lichess study failed: study is already included''),
      snd (includeStudy ex_env 2 ''u'' True None ex_world))"
    by blast
  from a b c ok d show ?thesis by blast
qed

text \<open>
  Claim C9. \<^verbatim>\<open>includeStudy\<close> ignores its argument \<^verbatim>\<open>onlyVariant\<close>: the argument is
  overwritten with \<^verbatim>\<open>true\<close> before the content is parsed, so the result and the state
  after the call, and with them the moves inserted, are the same whether the caller
  passes \<^verbatim>\<open>true\<close>, passes \<^verbatim>\<open>false\<close> or omits the argument.
\<close>

theorem includeStudy_ignores_onlyVariant:
  "includeStudy e study_id user_id repForWhite onlyVariant w =
   includeStudy e study_id user_id repForWhite (Some True) w"
  by (simp add: includeStudy_def Let_def split: option.splits)

section \<open>Deletion\<close>

text \<open>
  Claim C10. \<^verbatim>\<open>deleteStudy\<close> does not test that the study exists. When no row has the
  id, the lookup gives \<^verbatim>\<open>null\<close>, the read of \<^verbatim>\<open>study.userId\<close> throws a
  \<^verbatim>\<open>TypeError\<close> and not a descriptive error, and nothing is deleted or un-included:
  the state is as before.
\<close>

theorem deleteStudy_missing_study:
  "findUnique (db w) study_id = None \<Longrightarrow>
   deleteStudy e user_id study_id w =
     (Inl (TypeError ''Cannot read properties of null (reading 'userId')''), w)"
  by (simp add: deleteStudy_def)

theorem deleteStudy_missing_study_witness:
  "findUnique (db ex_world) 9 = None \<and>
   deleteStudy ex_env ''u'' 9 ex_world =
     (Inl (TypeError ''Cannot read properties of null (reading 'userId')''), ex_world)"
proof -
  have h: "findUnique (db ex_world) 9 = None" by code_simp
  from h deleteStudy_missing_study [OF h, where e = ex_env and user_id = "''u''"] show ?thesis by simp
qed

lemma fetchStudyUpdate_frame:
  assumes "fetchStudyUpdate e u i un tok w = (r, w')"
  shows "LichessStudy (db w') = LichessStudy (db w) \<and> Move (db w') = Move (db w) \<and>
         User (db w') = User (db w) \<and> next_move_id (db w') = next_move_id (db w)"
  using assms
  by (auto simp: fetchStudyUpdate_def Let_def update_upsert_def
           split: option.splits if_splits sum.splits prod.splits)

lemma study_update_frame:
  assumes "study_update i dt d = Inr d'"
  shows "User d' = User d \<and> LichessStudyUpdate d' = LichessStudyUpdate d \<and>
         next_move_id d' = next_move_id d \<and> next_study_id d' = next_study_id d"
  using assms by (auto simp: study_update_def split: option.splits)

lemma updateUnincludedStudy_frame:
  assumes "updateUnincludedStudy e u i un tok w = (r, w')"
  shows "Move (db w') = Move (db w) \<and> User (db w') = User (db w) \<and>
         LichessStudyUpdate (db w') = LichessStudyUpdate (db w) \<and>
         next_move_id (db w') = next_move_id (db w)"
  using assms
  by (auto simp: updateUnincludedStudy_def Let_def no_data_def
           split: option.splits if_splits sum.splits
           dest: study_update_frame study_update_Move)


lemma findUnique_id: "findUnique d i = Some r \<Longrightarrow> ls_id r = i"
  by (auto simp: findUnique_def find_Some_iff)










lemma sync_existing:
  assumes "find (\<lambda>study. ls_lichessId (es_study study) = sm_id l) existing = Some es"
  shows "sync_lichess_study e u un tok existing l s w =
     (if has_newer_version_on_lichess es l \<and> \<not> has_current_update_fetched es l
      then
        if ls_included (es_study es)
        then (case fetchStudyUpdate e u (ls_id (es_study es)) un tok w of
                (Inl ex, w') \<Rightarrow> (Inl ex, w')
              | (Inr _, w') \<Rightarrow>
                  (Inr ((restore_and_rename es l s)
                     \<lparr> num_updates_fetched := num_updates_fetched (restore_and_rename es l s) + 1 \<rparr>), w'))
        else if \<not> ls_hidden (es_study es)
        then (case updateUnincludedStudy e u (ls_id (es_study es)) un tok w of
                (Inl ex, w') \<Rightarrow> (Inl ex, w')
              | (Inr _, w') \<Rightarrow>
                  (Inr ((restore_and_rename es l s)
                     \<lparr> num_updates_fetched := num_updates_fetched (restore_and_rename es l s) + 1 \<rparr>), w'))
        else (Inr (restore_and_rename es l s), w)
      else (Inr (restore_and_rename es l s), w))"
proof -
  from assms have "es \<in> set existing" "ls_lichessId (es_study es) = sm_id l"
    by (auto simp: find_Some_iff)
  then have "sm_id l \<in> set (map (\<lambda>study. ls_lichessId (es_study study)) existing)"
    by force
  with assms show ?thesis
    unfolding sync_lichess_study_def restore_and_rename_def Let_def
    by (simp only: not_True_eq_False if_False option.case)
qed

lemma sync_new:
  assumes "sm_id l \<notin> set (map (\<lambda>study. ls_lichessId (es_study study)) existing)"
  shows "sync_lichess_study e u un tok existing l s w =
     (case fetchStudy e (length (fetch_log w)) (sm_id l) un tok of
        Inl ex \<Rightarrow> (Inl ex, w \<lparr> fetch_log := fetch_log w @ [sm_id l] \<rparr>)
      | Inr fetched \<Rightarrow>
          (Inr (s \<lparr> num_new_studies := num_new_studies s + 1 \<rparr>),
           w \<lparr> fetch_log := fetch_log w @ [sm_id l], ticks := Suc (ticks w),
               db := study_create (sm_id l) u (sm_updatedAt l) (sm_name l) (fs_pgn fetched)
                       (guessColor e (fs_pgn fetched)) (makePreviewFen e (fs_pgn fetched))
                       (clock e (ticks w)) (db w) \<rparr>))"
  using assms by (simp add: sync_lichess_study_def Let_def split: sum.splits)

lemma sync_cases:
  obtains (new) "sm_id l \<notin> set (map (\<lambda>study. ls_lichessId (es_study study)) existing)"
  | (existing) es where "find (\<lambda>study. ls_lichessId (es_study study) = sm_id l) existing = Some es"
      "es \<in> set existing" "ls_lichessId (es_study es) = sm_id l"
proof (cases "sm_id l \<in> set (map (\<lambda>study. ls_lichessId (es_study study)) existing)")
  case False
  then show ?thesis by (rule new)
next
  case True
  then have "\<exists>x \<in> set existing. ls_lichessId (es_study x) = sm_id l" by auto
  then obtain es where f: "find (\<lambda>study. ls_lichessId (es_study study) = sm_id l) existing = Some es"
    by (cases "find (\<lambda>study. ls_lichessId (es_study study) = sm_id l) existing")
       (auto simp: find_None_iff)
  then have "es \<in> set existing" "ls_lichessId (es_study es) = sm_id l"
    by (auto simp: find_Some_iff)
  with f show ?thesis by (rule existing)
qed

lemma studies_kept_refl: "studies_kept d d"
  by (simp add: studies_kept_def)

lemma studies_kept_trans: "studies_kept d d' \<Longrightarrow> studies_kept d' d'' \<Longrightarrow> studies_kept d d''"
  unfolding studies_kept_def by (metis (no_types, lifting))

lemma studies_kept_cong:
  "LichessStudy d' = LichessStudy d \<Longrightarrow> studies_kept d d'"
  by (simp add: studies_kept_def findUnique_def)

lemma find_append_some: "find P xs = Some x \<Longrightarrow> find P (xs @ ys) = Some x"
  by (induction xs) auto

lemma study_create_kept:
  "studies_kept d (study_create lid u lm n p g f now d)"
  by (auto simp: studies_kept_def findUnique_def study_create_def find_append_some)

lemma study_update_content_kept:
  assumes "study_update i dt d = Inr d'" "d_removedOnLichess dt = None" "d_included dt = None"
  shows "studies_kept d d'"
  unfolding studies_kept_def
proof (intro allI impI)
  fix j row
  assume f: "findUnique d j = Some row"
  from study_update_findUnique [OF assms(1), of j] f
  have "findUnique d' j = Some (if ls_id row = i then set_study_fields dt row else row)"
    by simp
  moreover have "ls_userId (set_study_fields dt row) = ls_userId row"
    "ls_lichessId (set_study_fields dt row) = ls_lichessId row"
    "ls_included (set_study_fields dt row) = ls_included row"
    "ls_hidden (set_study_fields dt row) = ls_hidden row"
    "ls_removedOnLichess (set_study_fields dt row) = ls_removedOnLichess row"
    using assms(2,3) by (simp_all add: set_study_fields_def)
  ultimately show "\<exists>row'. findUnique d' j = Some row' \<and>
           ls_userId row' = ls_userId row \<and>
           ls_lichessId row' = ls_lichessId row \<and>
           ls_included row' = ls_included row \<and>
           ls_hidden row' = ls_hidden row \<and>
           ls_removedOnLichess row' = ls_removedOnLichess row"
    by simp
qed

lemma updateUnincludedStudy_kept:
  assumes "updateUnincludedStudy e u i un tok w = (r, w')"
  shows "studies_kept (db w) (db w')"
proof -
  have n: "\<And>a b c. d_removedOnLichess
             (no_data \<lparr> d_lastModifiedOnLichess := a, d_lastFetched := b, d_pgn := c \<rparr>) = None"
    "\<And>a b c. d_included
             (no_data \<lparr> d_lastModifiedOnLichess := a, d_lastFetched := b, d_pgn := c \<rparr>) = None"
    by (simp_all add: no_data_def)
  from assms have "db w' = db w \<or>
      (\<exists>j dt. study_update j dt (db w) = Inr (db w') \<and> d_removedOnLichess dt = None \<and>
         d_included dt = None)"
    by (fastforce simp: updateUnincludedStudy_def Let_def n
             split: option.splits if_splits sum.splits)
  then show ?thesis
    using studies_kept_refl study_update_content_kept by metis
qed

lemma study_create_frame:
  "Move (study_create lid u lm n p g f now d) = Move d \<and>
   User (study_create lid u lm n p g f now d) = User d \<and>
   next_move_id (study_create lid u lm n p g f now d) = next_move_id d"
  by (simp add: study_create_def)

lemma sync_lichess_study_frame:
  assumes "sync_lichess_study e u un tok existing l s w = (r, w')"
  shows "Move (db w') = Move (db w) \<and> User (db w') = User (db w) \<and>
         next_move_id (db w') = next_move_id (db w) \<and> studies_kept (db w) (db w')"
proof (cases rule: sync_cases [of l existing])
  case new
  from assms show ?thesis
    unfolding sync_new [OF new]
    by (auto simp: study_create_frame study_create_kept studies_kept_refl split: sum.splits)
next
  case (existing es)
  from assms show ?thesis
    unfolding sync_existing [OF existing(1)]
    by (auto simp: studies_kept_refl split: if_splits prod.splits sum.splits
             dest: fetchStudyUpdate_frame updateUnincludedStudy_frame updateUnincludedStudy_kept
             intro: studies_kept_cong)
qed


lemma sync_lichess_studies_frame:
  "sync_lichess_studies e u un tok existing ls s w = (r, w') \<Longrightarrow>
   Move (db w') = Move (db w) \<and> User (db w') = User (db w) \<and>
   next_move_id (db w') = next_move_id (db w) \<and> studies_kept (db w) (db w')"
proof (induction ls arbitrary: s w)
  case Nil
  then show ?case by (simp add: studies_kept_refl)
next
  case (Cons l ls)
  obtain r1 w1 where 1: "sync_lichess_study e u un tok existing l s w = (r1, w1)"
    by (cases "sync_lichess_study e u un tok existing l s w")
  note f1 = sync_lichess_study_frame [OF 1]
  show ?case
  proof (cases r1)
    case (Inl ex)
    with Cons.prems 1 have "w' = w1" by simp
    with f1 show ?thesis by simp
  next
    case (Inr s1)
    with Cons.prems 1 have "sync_lichess_studies e u un tok existing ls s1 w1 = (r, w')" by simp
    from Cons.IH [OF this] f1 show ?thesis
      using studies_kept_trans by auto
  qed
qed

lemma restore_and_rename_queries:
  assumes "es \<in> set existing" "ls_lichessId (es_study es) = sm_id l"
  shows "\<exists>qs. queries (restore_and_rename es l s) = queries s @ qs \<and>
           (\<forall>q \<in> set qs. from_remote existing {sm_id l} q) \<and>
           num_removed_studies (restore_and_rename es l s) = num_removed_studies s"
  using assms
  by (auto simp: restore_and_rename_def Let_def from_remote_def no_data_def)

lemma sync_lichess_study_queries:
  assumes "sync_lichess_study e u un tok existing l s w = (Inr s', w')"
  shows "\<exists>qs. queries s' = queries s @ qs \<and>
           (\<forall>q \<in> set qs. from_remote existing {sm_id l} q) \<and>
           num_removed_studies s' = num_removed_studies s"
proof (cases rule: sync_cases [of l existing])
  case new
  from assms show ?thesis
    unfolding sync_new [OF new] by (auto split: sum.splits)
next
  case (existing es)
  from restore_and_rename_queries [OF existing(2,3), of s] assms show ?thesis
    unfolding sync_existing [OF existing(1)]
    by (auto split: if_splits prod.splits sum.splits)
qed

lemma from_remote_mono: "from_remote existing A q \<Longrightarrow> A \<subseteq> B \<Longrightarrow> from_remote existing B q"
  by (auto simp: from_remote_def)

lemma sync_lichess_studies_queries:
  "sync_lichess_studies e u un tok existing ls s w = (Inr s', w') \<Longrightarrow>
   \<exists>qs. queries s' = queries s @ qs \<and>
      (\<forall>q \<in> set qs. from_remote existing (set (map sm_id ls)) q) \<and>
      num_removed_studies s' = num_removed_studies s"
proof (induction ls arbitrary: s w)
  case Nil
  then show ?case by simp
next
  case (Cons l ls)
  from Cons.prems obtain s1 w1 where 1: "sync_lichess_study e u un tok existing l s w = (Inr s1, w1)"
    and 2: "sync_lichess_studies e u un tok existing ls s1 w1 = (Inr s', w')"
    by (auto split: prod.splits sum.splits)
  from sync_lichess_study_queries [OF 1] obtain qs1 where
    q1: "queries s1 = queries s @ qs1" "\<forall>q \<in> set qs1. from_remote existing {sm_id l} q"
        "num_removed_studies s1 = num_removed_studies s"
    by blast
  from Cons.IH [OF 2] obtain qs2 where
    q2: "queries s' = queries s1 @ qs2" "\<forall>q \<in> set qs2. from_remote existing (set (map sm_id ls)) q"
        "num_removed_studies s' = num_removed_studies s1"
    by blast
  have "\<forall>q \<in> set (qs1 @ qs2). from_remote existing (set (map sm_id (l # ls))) q"
    using q1(2) q2(2) by (auto intro: from_remote_mono)
  with q1 q2 show ?case by (intro exI [of _ "qs1 @ qs2"]) simp
qed

lemma find_deleted_study_eq:
  "find_deleted_study ids es s =
     s \<lparr> queries := queries s @ removal_queries ids es,
         num_removed_studies := num_removed_studies s + (if counted_as_removed ids es then 1 else 0) \<rparr>"
  by (simp add: find_deleted_study_def removal_queries_def counted_as_removed_def)

lemma find_deleted_studies_eq:
  "find_deleted_studies ids existing s =
     s \<lparr> queries := queries s @ concat (map (removal_queries ids) existing),
         num_removed_studies := num_removed_studies s +
            length (filter (counted_as_removed ids) existing) \<rparr>"
  by (induction existing arbitrary: s) (simp_all add: find_deleted_study_eq)

lemma collect_study_changes_frame:
  assumes "collect_study_changes e u un tok w = (r, w1)"
  shows "Move (db w1) = Move (db w) \<and> User (db w1) = User (db w) \<and>
         next_move_id (db w1) = next_move_id (db w) \<and> studies_kept (db w) (db w1)"
proof (cases "fetchStudiesMetadata e un tok")
  case (Inl ex)
  with assms show ?thesis by (simp add: collect_study_changes_def studies_kept_refl)
next
  case (Inr ls)
  obtain r2 w2 where 2: "sync_lichess_studies e u un tok (findMany_existing (db w) u) ls
       initial_sync_state w = (r2, w2)"
    by (cases "sync_lichess_studies e u un tok (findMany_existing (db w) u) ls initial_sync_state w")
  with assms Inr have "w1 = w2"
    by (cases r2) (simp_all add: collect_study_changes_def Let_def)
  with sync_lichess_studies_frame [OF 2] show ?thesis by simp
qed

lemma collect_study_changes_result:
  assumes "collect_study_changes e u un tok w = (Inr s, w1)"
  obtains ls qs where "fetchStudiesMetadata e un tok = Inr ls"
    "queries s = qs @ concat (map (removal_queries (map sm_id ls)) (findMany_existing (db w) u))"
    "\<forall>q \<in> set qs. from_remote (findMany_existing (db w) u) (set (map sm_id ls)) q"
    "num_removed_studies s =
       length (filter (counted_as_removed (map sm_id ls)) (findMany_existing (db w) u))"
proof (cases "fetchStudiesMetadata e un tok")
  case (Inl ex)
  with assms show ?thesis by (simp add: collect_study_changes_def)
next
  case (Inr ls)
  obtain r2 w2 where 2: "sync_lichess_studies e u un tok (findMany_existing (db w) u) ls
       initial_sync_state w = (r2, w2)"
    by (cases "sync_lichess_studies e u un tok (findMany_existing (db w) u) ls initial_sync_state w")
  with assms Inr obtain s2 where r2: "r2 = Inr s2"
    and s: "s = find_deleted_studies (map sm_id ls) (findMany_existing (db w) u) s2"
    by (cases r2) (simp_all add: collect_study_changes_def Let_def)
  from sync_lichess_studies_queries [OF 2 [unfolded r2]] obtain qs where
    q: "queries s2 = queries initial_sync_state @ qs"
       "\<forall>q \<in> set qs. from_remote (findMany_existing (db w) u) (set (map sm_id ls)) q"
       "num_removed_studies s2 = num_removed_studies initial_sync_state"
    by blast
  have "queries s = qs @ concat (map (removal_queries (map sm_id ls)) (findMany_existing (db w) u))"
    unfolding s find_deleted_studies_eq using q(1) by (simp add: initial_sync_state_def)
  moreover have "num_removed_studies s =
       length (filter (counted_as_removed (map sm_id ls)) (findMany_existing (db w) u))"
    unfolding s find_deleted_studies_eq using q(3) by (simp add: initial_sync_state_def)
  ultimately show ?thesis using that Inr q(2) by blast
qed

lemma run_query_User: "run_query q d = Inr d' \<Longrightarrow> User d' = User d"
  by (cases q)
     (auto simp: study_update_def study_delete_def move_upsert_def move_update_deleted_def
           split: option.splits if_splits)

lemma run_queries_User: "run_queries qs d = Inr d' \<Longrightarrow> User d' = User d"
  by (induction qs arbitrary: d) (auto split: sum.splits dest: run_query_User)

lemma run_query_untargeted:
  assumes "run_query q d = Inr d'" "query_target q \<noteq> Some i"
  shows "findUnique d' i = findUnique d i"
proof (cases q)
  case (StudyUpdate j dt)
  with assms have j: "j \<noteq> i" and su: "study_update j dt d = Inr d'" by auto
  show ?thesis
  proof (cases "findUnique d i")
    case None
    with study_update_findUnique [OF su, of i] show ?thesis by simp
  next
    case (Some row)
    with findUnique_id [OF Some] j study_update_findUnique [OF su, of i] show ?thesis by simp
  qed
next
  case (StudyDelete j)
  with assms study_delete_findUnique [of j d d' i] show ?thesis by auto
next
  case (MoveUpsert u m j)
  with assms move_upsert_LichessStudy [of u m j d d'] show ?thesis
    by (simp add: findUnique_def)
next
  case (MoveUpdateDeleted j b)
  with assms show ?thesis
    by (auto simp: move_update_deleted_def findUnique_def split: if_splits)
qed

lemma run_queries_untargeted:
  "run_queries qs d = Inr d' \<Longrightarrow> \<forall>q \<in> set qs. query_target q \<noteq> Some i \<Longrightarrow>
   findUnique d' i = findUnique d i"
proof (induction qs arbitrary: d)
  case Nil
  then show ?case by simp
next
  case (Cons q qs)
  from Cons.prems(1) obtain d1 where 1: "run_query q d = Inr d1" and 2: "run_queries qs d1 = Inr d'"
    by (auto split: sum.splits)
  from run_query_untargeted [OF 1] Cons.IH [OF 2] Cons.prems(2) show ?case by simp
qed

lemma run_queries_append_Inr:
  "run_queries (a @ b) d = Inr d' \<Longrightarrow> \<exists>dm. run_queries a d = Inr dm \<and> run_queries b dm = Inr d'"
  by (auto simp: run_queries_append split: sum.splits)

lemma run_query_structural_inv:
  assumes "run_query q d = Inr d'" "structural_query q" "moves_wf d" "move_invariant d"
  shows "moves_wf d' \<and> move_invariant d'"
proof (cases q)
  case (StudyUpdate j dt)
  with assms(1,2) study_update_Move [of j dt d d'] have "Move d' = Move d" "next_move_id d' = next_move_id d"
    by auto
  with assms(3,4) show ?thesis by (simp add: moves_wf_def move_invariant_def)
next
  case (StudyDelete j)
  with assms study_delete_inv [of j d d'] show ?thesis by simp
next
  case (MoveUpsert u m j)
  with assms(2) show ?thesis by simp
next
  case (MoveUpdateDeleted j b)
  with assms(2) show ?thesis by simp
qed

lemma run_queries_structural_inv:
  "run_queries qs d = Inr d' \<Longrightarrow> \<forall>q \<in> set qs. structural_query q \<Longrightarrow> moves_wf d \<Longrightarrow>
   move_invariant d \<Longrightarrow> moves_wf d' \<and> move_invariant d'"
proof (induction qs arbitrary: d)
  case Nil
  then show ?case by simp
next
  case (Cons q qs)
  from Cons.prems(1) obtain d1 where 1: "run_query q d = Inr d1" and 2: "run_queries qs d1 = Inr d'"
    by (auto split: sum.splits)
  from run_query_structural_inv [OF 1] Cons.prems have "moves_wf d1 \<and> move_invariant d1" by simp
  with Cons.IH [OF 2] Cons.prems(2) show ?case by simp
qed

lemma find_distinct_key:
  "distinct (map f xs) \<Longrightarrow> x \<in> set xs \<Longrightarrow> find (\<lambda>r. f r = f x) xs = Some x"
  by (induction xs) (auto simp: image_iff)

lemma snapshot_rows:
  assumes "distinct (map ls_id (LichessStudy d))" "es \<in> set (findMany_existing d u)"
  shows "findUnique d (ls_id (es_study es)) = Some (es_study es) \<and> ls_userId (es_study es) = u \<and>
         es_updates es = study_updates d (ls_id (es_study es))"
proof -
  from assms(2) have "es_study es \<in> set (LichessStudy d)" "ls_userId (es_study es) = u"
    "es_updates es = study_updates d (ls_id (es_study es))"
    by (auto simp: findMany_existing_def)
  with find_distinct_key [OF assms(1), of "es_study es"] show ?thesis
    by (simp add: findUnique_def)
qed

lemma snapshot_distinct:
  assumes "distinct (map ls_id (LichessStudy d))"
  shows "distinct (map (\<lambda>es. ls_id (es_study es)) (findMany_existing d u))"
proof -
  have "map (\<lambda>es. ls_id (es_study es)) (findMany_existing d u) =
        map ls_id (filter (\<lambda>r. ls_userId r = u) (LichessStudy d))"
    by (simp add: findMany_existing_def comp_def)
  with assms show ?thesis by (simp add: distinct_map_filter)
qed

lemma snapshot_current_kept:
  assumes "distinct (map ls_id (LichessStudy d))" "studies_kept d d'"
  shows "snapshot_current u (findMany_existing d u) d'"
  unfolding snapshot_current_def
proof
  fix es
  assume "es \<in> set (findMany_existing d u)"
  from snapshot_rows [OF assms(1) this] assms(2) show
    "\<exists>row. findUnique d' (ls_id (es_study es)) = Some row \<and>
          ls_userId row = u \<and>
          ls_lichessId row = ls_lichessId (es_study es) \<and>
          ls_included row = ls_included (es_study es) \<and>
          ls_hidden row = ls_hidden (es_study es) \<and>
          ls_removedOnLichess row = ls_removedOnLichess (es_study es)"
    unfolding studies_kept_def by fastforce
qed

lemma removal_queries_target:
  "q \<in> set (removal_queries ids es) \<Longrightarrow>
   query_target q = Some (ls_id (es_study es)) \<and> structural_query q"
  by (auto simp: removal_queries_def no_data_def split: if_splits)

lemma batch_split:
  assumes dist: "distinct (map (\<lambda>es. ls_id (es_study es)) existing)"
    and es: "es \<in> set existing" "ls_lichessId (es_study es) \<notin> set ids"
    and qs1: "\<forall>q \<in> set qs1. from_remote existing (set ids) q"
  obtains before after where
    "qs1 @ concat (map (removal_queries ids) existing) = before @ removal_queries ids es @ after"
    "\<forall>q \<in> set before. query_target q \<noteq> Some (ls_id (es_study es))"
    "\<forall>q \<in> set after. query_target q \<noteq> Some (ls_id (es_study es))"
proof -
  let ?i = "ls_id (es_study es)"
  from dist have inj: "inj_on (\<lambda>es. ls_id (es_study es)) (set existing)"
    by (simp add: distinct_map)
  have t1: "\<forall>q \<in> set qs1. query_target q \<noteq> Some ?i"
  proof
    fix q assume "q \<in> set qs1"
    with qs1 obtain es' where e': "es' \<in> set existing" "ls_lichessId (es_study es') \<in> set ids"
      "query_target q = Some (ls_id (es_study es'))"
      unfolding from_remote_def by blast
    show "query_target q \<noteq> Some ?i"
    proof
      assume "query_target q = Some ?i"
      with e'(3) have "ls_id (es_study es') = ?i" by simp
      with inj e'(1) es(1) have "es' = es" by (auto dest: inj_onD)
      with e'(2) es(2) show False by simp
    qed
  qed
  from es(1) obtain xs ys where split: "existing = xs @ es # ys"
    by (auto dest: split_list)
  with dist have nx: "\<forall>x \<in> set xs. ls_id (es_study x) \<noteq> ?i"
    and ny: "\<forall>y \<in> set ys. ls_id (es_study y) \<noteq> ?i"
    by (auto simp: image_iff)
  have t2: "\<forall>q \<in> set (concat (map (removal_queries ids) xs)). query_target q \<noteq> Some ?i"
    using nx by (auto dest!: removal_queries_target)
  have t3: "\<forall>q \<in> set (concat (map (removal_queries ids) ys)). query_target q \<noteq> Some ?i"
    using ny by (auto dest!: removal_queries_target)
  have "qs1 @ concat (map (removal_queries ids) existing) =
          (qs1 @ concat (map (removal_queries ids) xs)) @ removal_queries ids es @
            concat (map (removal_queries ids) ys)"
    unfolding split by simp
  moreover from t1 t2 have "\<forall>q \<in> set (qs1 @ concat (map (removal_queries ids) xs)).
      query_target q \<noteq> Some ?i"
    by auto
  ultimately show ?thesis using t3 that by blast
qed

lemma removal_queries_effect:
  assumes dist: "distinct (map (\<lambda>es. ls_id (es_study es)) existing)"
    and es: "es \<in> set existing" "ls_lichessId (es_study es) \<notin> set ids"
    and qs1: "\<forall>q \<in> set qs1. from_remote existing (set ids) q"
    and run: "run_queries (qs1 @ concat (map (removal_queries ids) existing)) d1 = Inr d2"
    and row: "findUnique d1 (ls_id (es_study es)) = Some row"
      "ls_included row = ls_included (es_study es)"
      "ls_removedOnLichess row = ls_removedOnLichess (es_study es)"
  shows "(ls_included (es_study es) \<longrightarrow>
           (\<exists>row'. findUnique d2 (ls_id (es_study es)) = Some row' \<and>
              ls_removedOnLichess row' \<and> ls_included row')) \<and>
         (\<not> ls_included (es_study es) \<longrightarrow> findUnique d2 (ls_id (es_study es)) = None)"
proof -
  let ?i = "ls_id (es_study es)"
  from batch_split [OF dist es qs1] obtain before after where
    sp: "qs1 @ concat (map (removal_queries ids) existing) = before @ removal_queries ids es @ after"
    and t2: "\<forall>q \<in> set before. query_target q \<noteq> Some ?i"
    and t3: "\<forall>q \<in> set after. query_target q \<noteq> Some ?i"
    by blast
  from run obtain db dc where
    r2: "run_queries before d1 = Inr db" and
    r3: "run_queries (removal_queries ids es) db = Inr dc" and
    r4: "run_queries after dc = Inr d2"
    unfolding sp by (metis run_queries_append_Inr)
  have fb: "findUnique db ?i = Some row"
    using run_queries_untargeted [OF r2 t2] row(1) by simp
  have f2: "findUnique d2 ?i = findUnique dc ?i"
    using run_queries_untargeted [OF r4 t3] .
  have id: "ls_id row = ?i" using findUnique_id [OF row(1)] .
  show ?thesis
  proof (cases "ls_included (es_study es)")
    case False
    with es(2) r3 have "study_delete ?i db = Inr dc"
      by (simp add: removal_queries_def counted_as_removed_def split: sum.splits)
    from study_delete_findUnique [OF this, of ?i] f2 False show ?thesis by simp
  next
    case incl: True
    show ?thesis
    proof (cases "ls_removedOnLichess (es_study es)")
      case True
      with incl r3 have "dc = db"
        by (simp add: removal_queries_def counted_as_removed_def)
      with fb f2 row incl True show ?thesis by simp
    next
      case False
      with incl es(2) r3
      have su: "study_update ?i (no_data \<lparr> d_removedOnLichess := Some True \<rparr>) db = Inr dc"
        by (simp add: removal_queries_def counted_as_removed_def split: sum.splits)
      from study_update_findUnique [OF su, of ?i] fb id
      have "findUnique dc ?i = Some (set_study_fields (no_data \<lparr> d_removedOnLichess := Some True \<rparr>) row)"
        by simp
      moreover have "ls_removedOnLichess (set_study_fields (no_data \<lparr> d_removedOnLichess := Some True \<rparr>) row)"
        "ls_included (set_study_fields (no_data \<lparr> d_removedOnLichess := Some True \<rparr>) row) = ls_included row"
        by (simp_all add: set_study_fields_def no_data_def)
      ultimately show ?thesis using f2 incl row(2) by simp
    qed
  qed
qed

lemma filter_untargeted:
  "\<forall>q \<in> set qs. query_target q \<noteq> Some i \<Longrightarrow> filter (\<lambda>q. query_target q = Some i) qs = []"
  by (induction qs) auto

lemma filter_targeted:
  "\<forall>q \<in> set qs. query_target q = Some i \<Longrightarrow> filter (\<lambda>q. query_target q = Some i) qs = qs"
  by (induction qs) auto

lemma batch_writes_to_absent_study:
  assumes dist: "distinct (map (\<lambda>es. ls_id (es_study es)) existing)"
    and es: "es \<in> set existing" "ls_lichessId (es_study es) \<notin> set ids"
    and qs1: "\<forall>q \<in> set qs1. from_remote existing (set ids) q"
  shows "filter (\<lambda>q. query_target q = Some (ls_id (es_study es)))
           (qs1 @ concat (map (removal_queries ids) existing)) = removal_queries ids es"
proof -
  from batch_split [OF dist es qs1] obtain before after where
    sp: "qs1 @ concat (map (removal_queries ids) existing) = before @ removal_queries ids es @ after"
    and t2: "\<forall>q \<in> set before. query_target q \<noteq> Some (ls_id (es_study es))"
    and t3: "\<forall>q \<in> set after. query_target q \<noteq> Some (ls_id (es_study es))"
    by blast
  have "\<forall>q \<in> set (removal_queries ids es). query_target q = Some (ls_id (es_study es))"
    by (auto dest: removal_queries_target)
  with t2 t3 show ?thesis
    unfolding sp by (simp add: filter_untargeted filter_targeted)
qed

lemma commit_study_changes_success:
  assumes "commit_study_changes e u s w1 = (Inr r, w')"
  obtains d2 where "run_queries (queries s) (db w1) = Inr d2"
    "user_update u (clock e (ticks w1)) d2 = Inr (db w')"
    "ticks w' = Suc (ticks w1)"
    "r_num_removed_studies r = num_removed_studies s"
proof (cases "transaction e (db w1) (queries s)")
  case (Inl ex)
  with assms show ?thesis by (simp add: commit_study_changes_def)
next
  case (Inr d2)
  then have rq: "run_queries (queries s) (db w1) = Inr d2"
    by (simp add: transaction_def split: option.splits)
  show ?thesis
  proof (cases "user_update u (clock e (ticks w1)) d2")
    case (Inl ex)
    with assms Inr show ?thesis by (simp add: commit_study_changes_def Let_def)
  next
    case uu: (Inr d3)
    with assms Inr have "db w' = d3" "ticks w' = Suc (ticks w1)"
      "r_num_removed_studies r = num_removed_studies s"
      by (auto simp: commit_study_changes_def Let_def)
    with rq uu that show ?thesis by simp
  qed
qed

lemma user_update_frame:
  "user_update u t d = Inr d' \<Longrightarrow>
   LichessStudy d' = LichessStudy d \<and> Move d' = Move d \<and> next_move_id d' = next_move_id d"
  by (auto simp: user_update_def split: if_splits)

lemma fetchAllStudyChanges_success:
  assumes "fetchAllStudyChanges e u un tok w = (Inr result, w')"
  obtains s w1 where "collect_study_changes e u un tok w = (Inr s, w1)"
    "commit_study_changes e u s w1 = (Inr result, w')"
proof -
  obtain r1 w1 where 1: "collect_study_changes e u un tok w = (r1, w1)"
    by (cases "collect_study_changes e u un tok w")
  with assms obtain s where "r1 = Inr s" "commit_study_changes e u s w1 = (Inr result, w')"
    by (cases r1) (simp_all add: fetchAllStudyChanges_def)
  with 1 that show ?thesis by simp
qed

lemma commit_study_changes_batch_fails:
  assumes "transaction e (db w1) (queries s) = Inl ex"
  shows "commit_study_changes e u s w1 =
           (Inl (Error (''Exception renaming study: '' @ message ex)), w1)"
  using assms by (simp add: commit_study_changes_def)

lemma commit_study_changes_User:
  "commit_study_changes e u s w1 = (r, w') \<Longrightarrow>
   (case r of
      Inl ex \<Rightarrow> User (db w') = User (db w1)
    | Inr result \<Rightarrow>
        ticks w' = Suc (ticks w1) \<and> list_ex (\<lambda>x. u_id x = u) (User (db w1)) \<and>
        User (db w') = map (\<lambda>x. if u_id x = u
                                 then x \<lparr> u_lastRepertoireUpdateCheck := Some (clock e (ticks w1)) \<rparr>
                                 else x) (User (db w1)))"
  by (auto simp: commit_study_changes_def Let_def transaction_def user_update_def
           split: sum.splits option.splits if_splits dest: run_queries_User)


section \<open>The reconciliation pass\<close>

text \<open>
  Claim C6. Let a pass succeed, on a database whose studies have distinct ids, and let a
  study of the snapshot be absent from the remote metadata. If it is included, it is in
  the database afterwards with \<^verbatim>\<open>removedOnLichess\<close> set; if it is not included, its row
  is gone. The count of removed studies is the number of these studies that are not
  included or were not yet flagged. The queries of the batch that write to the study are
  exactly \<open>removal_queries\<close>: none when it is included and already flagged, the update of
  the flag when it is included and not yet flagged, the deletion when it is not included.
\<close>

theorem absent_studies_removed:
  assumes "distinct (map ls_id (LichessStudy (db w)))"
    and "fetchStudiesMetadata e lichess_username lichess_access_token = Inr lichess_studies"
    and "fetchAllStudyChanges e user_id lichess_username lichess_access_token w = (Inr result, w')"
    and "es \<in> set (findMany_existing (db w) user_id)"
    and "ls_lichessId (es_study es) \<notin> set (map sm_id lichess_studies)"
  shows "(ls_included (es_study es) \<longrightarrow>
            (\<exists>row. findUnique (db w') (ls_id (es_study es)) = Some row \<and>
               ls_removedOnLichess row \<and> ls_included row)) \<and>
         (\<not> ls_included (es_study es) \<longrightarrow> findUnique (db w') (ls_id (es_study es)) = None) \<and>
         r_num_removed_studies result =
           length (filter (counted_as_removed (map sm_id lichess_studies))
                     (findMany_existing (db w) user_id)) \<and>
         (\<forall>s w1. collect_study_changes e user_id lichess_username lichess_access_token w = (Inr s, w1) \<longrightarrow>
            filter (\<lambda>q. query_target q = Some (ls_id (es_study es))) (queries s) =
              removal_queries (map sm_id lichess_studies) es)"
proof -
  let ?existing = "findMany_existing (db w) user_id"
  let ?ids = "map sm_id lichess_studies"
  let ?i = "ls_id (es_study es)"
  from assms(3) obtain s w1 where
    c: "collect_study_changes e user_id lichess_username lichess_access_token w = (Inr s, w1)" and
    m: "commit_study_changes e user_id s w1 = (Inr result, w')"
    by (rule fetchAllStudyChanges_success)
  from c obtain ls qs where
    ls: "fetchStudiesMetadata e lichess_username lichess_access_token = Inr ls" and
    q: "queries s = qs @ concat (map (removal_queries (map sm_id ls)) ?existing)" and
    fr: "\<forall>q \<in> set qs. from_remote ?existing (set (map sm_id ls)) q" and
    n: "num_removed_studies s = length (filter (counted_as_removed (map sm_id ls)) ?existing)"
    by (rule collect_study_changes_result)
  from ls assms(2) have eq: "ls = lichess_studies" by simp
  note dist = snapshot_distinct [OF assms(1), of user_id]
  from collect_study_changes_frame [OF c] have kept: "studies_kept (db w) (db w1)" by simp
  from snapshot_rows [OF assms(1,4)] have "findUnique (db w) ?i = Some (es_study es)" by simp
  with kept obtain row where row: "findUnique (db w1) ?i = Some row"
    "ls_included row = ls_included (es_study es)"
    "ls_removedOnLichess row = ls_removedOnLichess (es_study es)"
    unfolding studies_kept_def by blast
  from m obtain d2 where run: "run_queries (queries s) (db w1) = Inr d2"
    and uu: "user_update user_id (clock e (ticks w1)) d2 = Inr (db w')"
    and cnt: "r_num_removed_studies result = num_removed_studies s"
    by (rule commit_study_changes_success)
  from user_update_frame [OF uu] have same: "findUnique (db w') ?i = findUnique d2 ?i"
    by (simp add: findUnique_def)
  from removal_queries_effect [OF dist assms(4,5) fr [unfolded eq] run [unfolded q eq] row] same
  have 1: "(ls_included (es_study es) \<longrightarrow>
            (\<exists>row. findUnique (db w') ?i = Some row \<and> ls_removedOnLichess row \<and> ls_included row)) \<and>
         (\<not> ls_included (es_study es) \<longrightarrow> findUnique (db w') ?i = None)"
    by simp
  from cnt n eq have 2: "r_num_removed_studies result =
           length (filter (counted_as_removed ?ids) ?existing)"
    by simp
  have 3: "\<forall>s w1. collect_study_changes e user_id lichess_username lichess_access_token w = (Inr s, w1) \<longrightarrow>
            filter (\<lambda>q. query_target q = Some ?i) (queries s) = removal_queries ?ids es"
    using c q eq batch_writes_to_absent_study [OF dist assms(4,5) fr [unfolded eq]] by simp
  from 1 2 3 show ?thesis by blast
qed

theorem absent_studies_removed_witness:
  "findUnique (db (snd (fetchAllStudyChanges ex_env ''u'' [] [] ex_world))) 2 = None \<and>
   (\<exists>row. findUnique (db (snd (fetchAllStudyChanges ex_env ''u'' [] [] ex_world))) 3 = Some row \<and>
      ls_removedOnLichess row \<and> ls_included row) \<and>
   (\<exists>row. findUnique (db (snd (fetchAllStudyChanges ex_env ''u'' [] [] ex_world))) 5 = Some row \<and>
      ls_removedOnLichess row \<and> ls_included row) \<and>
   r_num_removed_studies (projr (fst (fetchAllStudyChanges ex_env ''u'' [] [] ex_world))) = 2 \<and>
   filter (\<lambda>q. query_target q = Some 5)
     (queries (projr (fst (collect_study_changes ex_env ''u'' [] [] ex_world)))) = []"
proof -
  let ?C = "collect_study_changes ex_env ''u'' [] [] ex_world"
  have "\<not> isl (fst ?C)" by code_simp
  then have c: "?C = (Inr (projr (fst ?C)), snd ?C)"
    by (metis prod.collapse sum.collapse(2))
  let ?R = "fetchAllStudyChanges ex_env ''u'' [] [] ex_world"
  let ?b = "\<lparr> es_study = ex_study 2 ''b'' ''u'' ''p2'' False False, es_updates = [] \<rparr>"
  let ?d = "\<lparr> es_study = ex_study 3 ''d'' ''u'' ''p3'' True False, es_updates = [] \<rparr>"
  let ?f = "\<lparr> es_study = (ex_study 5 ''f'' ''u'' ''p5'' True False) \<lparr> ls_removedOnLichess := True \<rparr>,
              es_updates = [] \<rparr>"
  have h1: "distinct (map ls_id (LichessStudy (db ex_world)))" by code_simp
  have h2: "fetchStudiesMetadata ex_env [] [] = Inr ex_remote" by (simp add: ex_env_def)
  have "\<not> isl (fst ?R)" by code_simp
  then have h3: "?R = (Inr (projr (fst ?R)), snd ?R)"
    by (metis prod.collapse sum.collapse(2))
  have mb: "?b \<in> set (findMany_existing (db ex_world) ''u'')" by code_simp
  have md: "?d \<in> set (findMany_existing (db ex_world) ''u'')" by code_simp
  have mf: "?f \<in> set (findMany_existing (db ex_world) ''u'')" by code_simp
  have ab: "ls_lichessId (es_study ?b) \<notin> set (map sm_id ex_remote)" by code_simp
  have ad: "ls_lichessId (es_study ?d) \<notin> set (map sm_id ex_remote)" by code_simp
  have af: "ls_lichessId (es_study ?f) \<notin> set (map sm_id ex_remote)" by code_simp
  have v: "ls_id (es_study ?b) = 2" "\<not> ls_included (es_study ?b)"
    "ls_id (es_study ?d) = 3" "ls_included (es_study ?d)"
    "ls_id (es_study ?f) = 5" "ls_included (es_study ?f)"
    by (simp_all add: ex_study_def)
  have n: "length (filter (counted_as_removed (map sm_id ex_remote))
             (findMany_existing (db ex_world) ''u'')) = 2"
    by code_simp
  have rf: "removal_queries (map sm_id ex_remote) ?f = []" by code_simp
  from absent_studies_removed [OF h1 h2 h3 mb ab] v n
  have 1: "findUnique (db (snd ?R)) 2 = None"
    "r_num_removed_studies (projr (fst ?R)) = 2"
    by simp_all
  from absent_studies_removed [OF h1 h2 h3 md ad] v
  have 2: "\<exists>row. findUnique (db (snd ?R)) 3 = Some row \<and> ls_removedOnLichess row \<and> ls_included row"
    by simp
  from absent_studies_removed [OF h1 h2 h3 mf af] v rf
  have 3: "\<exists>row. findUnique (db (snd ?R)) 5 = Some row \<and> ls_removedOnLichess row \<and> ls_included row"
    "\<forall>s w1. ?C = (Inr s, w1) \<longrightarrow>
      filter (\<lambda>q. query_target q = Some 5) (queries s) = []"
    by simp_all
  from 3(2) [rule_format, OF c]
  have 4: "filter (\<lambda>q. query_target q = Some 5) (queries (projr (fst ?C))) = []" .
  from 1 2 3(1) 4 show ?thesis by blast
qed

text \<open>
  Claim C8. When the transaction of the collected queries is rejected, the pass rejects
  with a new error and returns no counts, and the state is the one before the
  transaction. Whenever the pass rejects, the table of users is as before the pass: the
  time of the last check is not recorded. When the pass returns its counts, the table of
  users is the one before the pass with one update of the user's row, to the time read
  after the transaction.
\<close>

theorem batch_failure_reports_nothing:
  "(\<forall>s w1 ex. collect_study_changes e user_id lichess_username lichess_access_token w = (Inr s, w1) \<and>
        transaction e (db w1) (queries s) = Inl ex \<longrightarrow>
      fetchAllStudyChanges e user_id lichess_username lichess_access_token w =
        (Inl (Error (''Exception renaming study: '' @ message ex)), w1)) \<and>
   (\<forall>ex w'. fetchAllStudyChanges e user_id lichess_username lichess_access_token w = (Inl ex, w') \<longrightarrow>
      User (db w') = User (db w)) \<and>
   (\<forall>result w'. fetchAllStudyChanges e user_id lichess_username lichess_access_token w = (Inr result, w') \<longrightarrow>
      0 < ticks w' \<and> list_ex (\<lambda>x. u_id x = user_id) (User (db w)) \<and>
      User (db w') = map (\<lambda>x. if u_id x = user_id
                               then x \<lparr> u_lastRepertoireUpdateCheck := Some (clock e (ticks w' - 1)) \<rparr>
                               else x) (User (db w)))"
proof -
  have a: "\<forall>s w1 ex. collect_study_changes e user_id lichess_username lichess_access_token w = (Inr s, w1) \<and>
        transaction e (db w1) (queries s) = Inl ex \<longrightarrow>
      fetchAllStudyChanges e user_id lichess_username lichess_access_token w =
        (Inl (Error (''Exception renaming study: '' @ message ex)), w1)"
    by (simp add: fetchAllStudyChanges_def commit_study_changes_batch_fails)
  have b: "\<forall>ex w'. fetchAllStudyChanges e user_id lichess_username lichess_access_token w = (Inl ex, w') \<longrightarrow>
      User (db w') = User (db w)"
  proof (intro allI impI)
    fix ex w'
    assume a: "fetchAllStudyChanges e user_id lichess_username lichess_access_token w = (Inl ex, w')"
    obtain r1 w1 where 1: "collect_study_changes e user_id lichess_username lichess_access_token w = (r1, w1)"
      by (cases "collect_study_changes e user_id lichess_username lichess_access_token w")
    from collect_study_changes_frame [OF 1] have u1: "User (db w1) = User (db w)" by simp
    show "User (db w') = User (db w)"
    proof (cases r1)
      case (Inl ex1)
      with a 1 have "w' = w1" by (simp add: fetchAllStudyChanges_def)
      with u1 show ?thesis by simp
    next
      case (Inr s)
      with a 1 have "commit_study_changes e user_id s w1 = (Inl ex, w')"
        by (simp add: fetchAllStudyChanges_def)
      from commit_study_changes_User [OF this] u1 show ?thesis by simp
    qed
  qed
  have c: "\<forall>result w'. fetchAllStudyChanges e user_id lichess_username lichess_access_token w = (Inr result, w') \<longrightarrow>
      0 < ticks w' \<and> list_ex (\<lambda>x. u_id x = user_id) (User (db w)) \<and>
      User (db w') = map (\<lambda>x. if u_id x = user_id
                               then x \<lparr> u_lastRepertoireUpdateCheck := Some (clock e (ticks w' - 1)) \<rparr>
                               else x) (User (db w))"
  proof (intro allI impI)
    fix result w'
    assume "fetchAllStudyChanges e user_id lichess_username lichess_access_token w = (Inr result, w')"
    then obtain s w1 where
      c: "collect_study_changes e user_id lichess_username lichess_access_token w = (Inr s, w1)" and
      m: "commit_study_changes e user_id s w1 = (Inr result, w')"
      by (rule fetchAllStudyChanges_success)
    from collect_study_changes_frame [OF c] have u1: "User (db w1) = User (db w)" by simp
    from commit_study_changes_User [OF m] u1
    show "0 < ticks w' \<and> list_ex (\<lambda>x. u_id x = user_id) (User (db w)) \<and>
        User (db w') = map (\<lambda>x. if u_id x = user_id
                               then x \<lparr> u_lastRepertoireUpdateCheck := Some (clock e (ticks w' - 1)) \<rparr>
                               else x) (User (db w))"
      by simp
  qed
  show ?thesis by (rule conjI [OF a conjI [OF b c]])
qed

theorem batch_failure_reports_nothing_witness:
  "fetchAllStudyChanges ex_env_fault ''u'' [] [] ex_world =
     (Inl (Error ''Exception renaming study: deadlock''),
      snd (collect_study_changes ex_env_fault ''u'' [] [] ex_world)) \<and>
   User (db (snd (fetchAllStudyChanges ex_env_fault ''u'' [] [] ex_world))) = User (db ex_world) \<and>
   fst (fetchAllStudyChanges ex_env ''u'' [] [] ex_world) =
     Inr \<lparr> r_num_new_studies = 1, r_num_updates_fetched = 1, r_num_renamed_studies = 1,
           r_num_removed_studies = 2 \<rparr> \<and>
   User (db (snd (fetchAllStudyChanges ex_env ''u'' [] [] ex_world))) =
     [\<lparr> u_id = ''u'', u_lastRepertoireUpdateCheck = Some 102 \<rparr>]"
proof -
  let ?C = "collect_study_changes ex_env_fault ''u'' [] [] ex_world"
  let ?F = "fetchAllStudyChanges ex_env_fault ''u'' [] [] ex_world"
  let ?R = "fetchAllStudyChanges ex_env ''u'' [] [] ex_world"
  have "\<not> isl (fst ?C)" by code_simp
  then have c: "?C = (Inr (projr (fst ?C)), snd ?C)"
    by (metis prod.collapse sum.collapse(2))
  have t: "transaction ex_env_fault (db (snd ?C)) (queries (projr (fst ?C))) =
             Inl (PrismaError ''deadlock'')"
    by (simp add: transaction_def ex_env_fault_def)
  note inst = batch_failure_reports_nothing
    [where e = ex_env_fault and user_id = "''u''" and lichess_username = "[]"
       and lichess_access_token = "[]" and w = ex_world]
  from inst [THEN conjunct1, rule_format, OF conjI [OF c t]]
  have 1: "?F = (Inl (Error ''Exception renaming study: deadlock''), snd ?C)"
    by simp
  from inst [THEN conjunct2, THEN conjunct1, rule_format, OF 1]
  have 2: "User (db (snd ?F)) = User (db ex_world)"
    by (simp add: 1)
  have r: "fst ?R = Inr \<lparr> r_num_new_studies = 1, r_num_updates_fetched = 1,
      r_num_renamed_studies = 1, r_num_removed_studies = 2 \<rparr>"
    by code_simp
  then have r': "?R = (Inr \<lparr> r_num_new_studies = 1, r_num_updates_fetched = 1,
      r_num_renamed_studies = 1, r_num_removed_studies = 2 \<rparr>, snd ?R)"
    by (metis prod.collapse)
  have u: "map (\<lambda>x. if u_id x = ''u''
                      then x \<lparr> u_lastRepertoireUpdateCheck := Some (clock ex_env (ticks (snd ?R) - 1)) \<rparr>
                      else x)
             (User (db ex_world)) = [\<lparr> u_id = ''u'', u_lastRepertoireUpdateCheck = Some 102 \<rparr>]"
    by code_simp
  from batch_failure_reports_nothing
    [where e = ex_env and user_id = "''u''" and lichess_username = "[]"
       and lichess_access_token = "[]" and w = ex_world,
     THEN conjunct2, THEN conjunct2, rule_format, OF r']
  have 3: "User (db (snd ?R)) = [\<lparr> u_id = ''u'', u_lastRepertoireUpdateCheck = Some 102 \<rparr>]"
    by (simp only: u)
  from 1 2 r 3 show ?thesis by blast
qed

lemma unincludeStudy_success:
  assumes "unincludeStudy e study_id user_id w = (Inr n, w1)"
  obtains study where "findUnique (db w) study_id = Some study" "ls_userId study = user_id"
    "run_queries (orphanMoveSoftDeletionsQueries (study_moves (db w) study_id) @
        [StudyUpdate study_id (no_data \<lparr> d_included := Some False, d_moves_set := Some [] \<rparr>)]) (db w)
       = Inr (db w1)"
    "w1 = w \<lparr> db := db w1 \<rparr>"
    "n = length (orphanMoveSoftDeletionsQueries (study_moves (db w) study_id))"
proof (cases "findUnique (db w) study_id")
  case None
  with assms show ?thesis by (simp add: unincludeStudy_def)
next
  case (Some study)
  from assms Some have c: "ls_userId study = user_id"
    by (simp add: unincludeStudy_def split: if_splits)
  let ?qs = "orphanMoveSoftDeletionsQueries (study_moves (db w) study_id) @
        [StudyUpdate study_id (no_data \<lparr> d_included := Some False, d_moves_set := Some [] \<rparr>)]"
  from assms Some c have t: "(case transaction e (db w) ?qs of
           Inl ex \<Rightarrow> (Inl (Error (message ex)), w)
         | Inr d' \<Rightarrow> (Inr (length (orphanMoveSoftDeletionsQueries (study_moves (db w) study_id))),
                       w \<lparr> db := d' \<rparr>)) = (Inr n, w1)"
    by (simp add: unincludeStudy_def Let_def)
  then obtain d' where d': "transaction e (db w) ?qs = Inr d'" "w1 = w \<lparr> db := d' \<rparr>"
    "n = length (orphanMoveSoftDeletionsQueries (study_moves (db w) study_id))"
    by (cases "transaction e (db w) ?qs") auto
  from d'(1) have "run_queries ?qs (db w) = Inr d'"
    by (simp add: transaction_def split: option.splits)
  with Some c d'(2,3) that show ?thesis by simp
qed

lemma unincludeStudy_failure_keeps_world:
  assumes "unincludeStudy e study_id user_id w = (Inl ex, w')"
  shows "w' = w"
  using assms
  by (auto simp: unincludeStudy_def Let_def split: option.splits if_splits sum.splits)

lemma includeStudy_inv:
  assumes "includeStudy e study_id user_id repForWhite onlyVariant w = (r, w')"
    "moves_wf (db w)" "move_invariant (db w)"
  shows "moves_wf (db w') \<and> move_invariant (db w')"
proof (cases r)
  case (Inl ex)
  with assms(1) includeStudy_failure_keeps_world have "w' = w" by blast
  with assms(2,3) show ?thesis by simp
next
  case (Inr u)
  with assms(1) have "includeStudy e study_id user_id repForWhite onlyVariant w = (Inr u, w')"
    by simp
  then obtain study dm where
    "findUnique (db w) study_id = Some study" "ls_userId study = user_id"
    "\<not> ls_hidden study" "\<not> ls_included study"
    and r: "run_queries (map (\<lambda>move. MoveUpsert user_id move study_id)
              (pgndbToMoves e (ls_pgn study) (Some repForWhite) (Some True))) (db w) = Inr dm"
    and su: "study_update study_id
               (no_data \<lparr> d_included := Some True, d_repForWhite := Some repForWhite \<rparr>) dm = Inr (db w')"
    and "w' = w \<lparr> db := db w' \<rparr>"
    by (rule includeStudy_success)
  from run_upserts_inv [OF r assms(2,3)] have "moves_wf dm \<and> move_invariant dm" .
  moreover from study_update_Move [OF su] have "Move (db w') = Move dm" "next_move_id (db w') = next_move_id dm"
    by (simp_all add: no_data_def)
  ultimately show ?thesis by (simp add: moves_wf_def move_invariant_def)
qed

lemma includeStudy_reattaches:
  assumes "includeStudy e study_id user_id repForWhite onlyVariant w = (Inr u, w')"
    and "findUnique (db w) study_id = Some study"
    and "move \<in> set (pgndbToMoves e (ls_pgn study) (Some repForWhite) (Some True))"
  shows "owned_undeleted user_id study_id (db w') move"
proof -
  from assms(1) obtain study' dm where
    f: "findUnique (db w) study_id = Some study'" and "ls_userId study' = user_id"
    and "\<not> ls_hidden study'" "\<not> ls_included study'" and
    r: "run_queries (map (\<lambda>move. MoveUpsert user_id move study_id)
              (pgndbToMoves e (ls_pgn study') (Some repForWhite) (Some True))) (db w) = Inr dm"
    and su: "study_update study_id
               (no_data \<lparr> d_included := Some True, d_repForWhite := Some repForWhite \<rparr>) dm = Inr (db w')"
    and "w' = w \<lparr> db := db w' \<rparr>"
    by (rule includeStudy_success)
  from f assms(2) have "study' = study" by simp
  with run_upserts_owned [OF r] assms(3) have "owned_undeleted user_id study_id dm move" by simp
  moreover from study_update_Move [OF su] have "Move (db w') = Move dm" by (simp add: no_data_def)
  ultimately show ?thesis by (simp add: owned_undeleted_def)
qed

lemma unincludeStudy_inv:
  assumes "unincludeStudy e study_id user_id w = (r, w')"
    "moves_wf (db w)" "move_invariant (db w)"
  shows "moves_wf (db w') \<and> move_invariant (db w')"
proof (cases r)
  case (Inl ex)
  with assms(1) unincludeStudy_failure_keeps_world have "w' = w" by blast
  with assms(2,3) show ?thesis by simp
next
  case (Inr n)
  with assms(1) have "unincludeStudy e study_id user_id w = (Inr n, w')" by simp
  then obtain study where f: "findUnique (db w) study_id = Some study"
    and "ls_userId study = user_id"
    and run: "run_queries (orphanMoveSoftDeletionsQueries (study_moves (db w) study_id) @
        [StudyUpdate study_id (no_data \<lparr> d_included := Some False, d_moves_set := Some [] \<rparr>)]) (db w)
       = Inr (db w')"
    and "w' = w \<lparr> db := db w' \<rparr>"
    and "n = length (orphanMoveSoftDeletionsQueries (study_moves (db w) study_id))"
    by (rule unincludeStudy_success)
  from assms(2) have "distinct (map mv_id (Move (db w)))" by (simp add: moves_wf_def)
  from uninclude_batch [OF f this] run have "db w' = unincluded_db study_id (db w)" by simp
  with unincluded_db_inv [OF assms(2,3)] show ?thesis by simp
qed

lemma deleteStudy_inv:
  assumes "deleteStudy e user_id study_id w = (r, w')"
    "moves_wf (db w)" "move_invariant (db w)"
  shows "moves_wf (db w') \<and> move_invariant (db w')"
proof (cases "findUnique (db w) study_id")
  case None
  with assms show ?thesis by (simp add: deleteStudy_def)
next
  case (Some study)
  show ?thesis
  proof (cases "ls_userId study \<noteq> user_id")
    case True
    with assms Some show ?thesis by (simp add: deleteStudy_def)
  next
    case False
    obtain r1 w1 where 1: "(if ls_included study then unincludeStudy e study_id user_id w
                            else (Inr 0, w)) = (r1, w1)"
      by (cases "if ls_included study then unincludeStudy e study_id user_id w else (Inr 0, w)")
    have i1: "moves_wf (db w1) \<and> move_invariant (db w1)"
    proof (cases "ls_included study")
      case True
      with 1 unincludeStudy_inv [OF _ assms(2,3)] show ?thesis by simp
    next
      case False
      with 1 assms(2,3) show ?thesis by auto
    qed
    from assms(1) Some False 1 have
      d: "(case r1 of Inl ex \<Rightarrow> (Inl ex, w1)
           | Inr _ \<Rightarrow> (case study_delete study_id (db w1) of
                    Inl ex \<Rightarrow> (Inl ex, w1)
                  | Inr d' \<Rightarrow> (Inr (), w1 \<lparr> db := d' \<rparr>))) = (r, w')"
      by (simp add: deleteStudy_def split: sum.splits)
    show ?thesis
    proof (cases r1)
      case (Inl ex)
      with d i1 show ?thesis by auto
    next
      case (Inr n)
      show ?thesis
      proof (cases "study_delete study_id (db w1)")
        case (Inl ex)
        with d Inr i1 show ?thesis by auto
      next
        case sd: (Inr d')
        with d Inr have "db w' = d'" by auto
        with study_delete_inv [OF sd] i1 show ?thesis by simp
      qed
    qed
  qed
qed

lemma frame_inv:
  assumes "Move d' = Move d" "next_move_id d' = next_move_id d" "moves_wf d" "move_invariant d"
  shows "moves_wf d' \<and> move_invariant d'"
  using assms by (simp add: moves_wf_def move_invariant_def)

lemma fetchAllStudyChanges_inv:
  assumes "fetchAllStudyChanges e user_id un tok w = (r, w')"
    "moves_wf (db w)" "move_invariant (db w)"
  shows "moves_wf (db w') \<and> move_invariant (db w')"
proof -
  obtain r1 w1 where 1: "collect_study_changes e user_id un tok w = (r1, w1)"
    by (cases "collect_study_changes e user_id un tok w")
  from collect_study_changes_frame [OF 1] assms(2,3)
  have i1: "moves_wf (db w1) \<and> move_invariant (db w1)"
    by (simp add: frame_inv)
  show ?thesis
  proof (cases r1)
    case (Inl ex)
    with assms(1) 1 have "w' = w1" by (simp add: fetchAllStudyChanges_def)
    with i1 show ?thesis by simp
  next
    case (Inr s)
    with assms(1) 1 have m: "commit_study_changes e user_id s w1 = (r, w')"
      by (simp add: fetchAllStudyChanges_def)
    from 1 Inr have "collect_study_changes e user_id un tok w = (Inr s, w1)" by simp
    then obtain ls qs where
      "fetchStudiesMetadata e un tok = Inr ls" and
      q: "queries s = qs @ concat (map (removal_queries (map sm_id ls)) (findMany_existing (db w) user_id))"
      and fr: "\<forall>q \<in> set qs. from_remote (findMany_existing (db w) user_id) (set (map sm_id ls)) q"
      and "num_removed_studies s =
       length (filter (counted_as_removed (map sm_id ls)) (findMany_existing (db w) user_id))"
      by (rule collect_study_changes_result)
    have st: "\<forall>q \<in> set (queries s). structural_query q"
      unfolding q using fr by (auto simp: from_remote_def dest: removal_queries_target)
    show ?thesis
    proof (cases "transaction e (db w1) (queries s)")
      case (Inl ex)
      with m have "w' = w1" by (simp add: commit_study_changes_def)
      with i1 show ?thesis by simp
    next
      case t: (Inr d2)
      then have "run_queries (queries s) (db w1) = Inr d2"
        by (simp add: transaction_def split: option.splits)
      from run_queries_structural_inv [OF this st] i1
      have i2: "moves_wf d2 \<and> move_invariant d2" by simp
      show ?thesis
      proof (cases "user_update user_id (clock e (ticks w1)) d2")
        case (Inl ex)
        with m t have "db w' = d2" by (auto simp: commit_study_changes_def Let_def)
        with i2 show ?thesis by simp
      next
        case uu: (Inr d3)
        with m t have "db w' = d3" by (auto simp: commit_study_changes_def Let_def)
        with user_update_frame [OF uu] i2 show ?thesis by (simp add: frame_inv)
      qed
    qed
  qed
qed

lemma orphan_queries_untargeted:
  "\<forall>q \<in> set (orphanMoveSoftDeletionsQueries ms). query_target q \<noteq> Some i"
  by (auto simp: orphanMoveSoftDeletionsQueries_def)

lemma unincludeStudy_detaches:
  assumes "unincludeStudy e study_id user_id w = (Inr n, w1)"
  shows "(\<exists>study. findUnique (db w1) study_id = Some study \<and> \<not> ls_included study) \<and>
         (\<forall>m \<in> set (Move (db w1)). study_id \<notin> set (mv_studies m))"
proof -
  from assms obtain study where f: "findUnique (db w) study_id = Some study"
    and "ls_userId study = user_id"
    and run: "run_queries (orphanMoveSoftDeletionsQueries (study_moves (db w) study_id) @
        [StudyUpdate study_id (no_data \<lparr> d_included := Some False, d_moves_set := Some [] \<rparr>)]) (db w)
       = Inr (db w1)"
    and "w1 = w \<lparr> db := db w1 \<rparr>"
    and "n = length (orphanMoveSoftDeletionsQueries (study_moves (db w) study_id))"
    by (rule unincludeStudy_success)
  from run_queries_snoc [OF run] obtain dm where
    1: "run_queries (orphanMoveSoftDeletionsQueries (study_moves (db w) study_id)) (db w) = Inr dm"
    and 2: "study_update study_id (no_data \<lparr> d_included := Some False, d_moves_set := Some [] \<rparr>) dm
              = Inr (db w1)"
    by auto
  from run_queries_untargeted [OF 1 orphan_queries_untargeted] f
  have fm: "findUnique dm study_id = Some study" by simp
  from study_update_findUnique [OF 2, of study_id] fm findUnique_id [OF f]
  have "findUnique (db w1) study_id = Some (study \<lparr> ls_included := False \<rparr>)"
    by (simp add: set_study_fields_uninclude)
  moreover from 2 fm have "db w1 = dm \<lparr> LichessStudy :=
           map (\<lambda>r. if ls_id r = study_id
                    then set_study_fields
                          (no_data \<lparr> d_included := Some False, d_moves_set := Some [] \<rparr>) r
                    else r) (LichessStudy dm),
           Move := map (set_study_moves study_id []) (Move dm) \<rparr>"
    by (auto simp: study_update_def)
  then have "Move (db w1) = map (set_study_moves study_id []) (Move dm)"
    by simp
  then have "\<forall>m \<in> set (Move (db w1)). study_id \<notin> set (mv_studies m)"
    by (auto simp: set_study_moves_def)
  ultimately show ?thesis by simp
qed

lemma study_delete_detached:
  assumes "findUnique d i = Some study" "\<forall>m \<in> set (Move d). i \<notin> set (mv_studies m)"
  shows "\<exists>d2. study_delete i d = Inr d2 \<and> findUnique d2 i = None \<and> Move d2 = Move d"
proof -
  have "map (\<lambda>m. m \<lparr> mv_studies := removeAll i (mv_studies m) \<rparr>) (Move d) = Move d"
    using assms(2) by (induction "Move d") (auto simp: map_idI)
  with assms(1) show ?thesis
    by (simp add: study_delete_def findUnique_def find_study_filter)
qed

lemma deleteStudy_included:
  assumes "findUnique (db w) study_id = Some study" "ls_userId study = user_id" "ls_included study"
  shows "deleteStudy e user_id study_id w =
     (case unincludeStudy e study_id user_id w of
        (Inl ex, w') \<Rightarrow> (Inl ex, w')
      | (Inr _, w') \<Rightarrow>
          (case study_delete study_id (db w') of
             Inl ex \<Rightarrow> (Inl ex, w')
           | Inr d' \<Rightarrow> (Inr (), w' \<lparr> db := d' \<rparr>)))"
  using assms by (simp add: deleteStudy_def)


section \<open>Deletion of an included study\<close>

text \<open>
  Claim C7. \<^verbatim>\<open>deleteStudy\<close> fails when the study belongs to another user. For an
  included study it first runs \<^verbatim>\<open>unincludeStudy\<close>, which commits its own batch; when
  that fails, the deletion fails with the same error and nothing has changed. When it
  succeeds, the row of the study is hard-deleted in a second step, which changes no
  move, and a lookup of the study finds nothing afterwards (\<^verbatim>\<open>unincludeStudy\<close> reports
  it as not found). When the ids of the moves are distinct and the storage engine
  accepts the batch, the moves afterwards are those before with the exclusively owned
  ones soft-deleted and every edge to the study removed.
\<close>

theorem deleteStudy_two_steps:
  "(\<forall>study. findUnique (db w) study_id = Some study \<and> ls_userId study \<noteq> user_id \<longrightarrow>
      deleteStudy e user_id study_id w =
        (Inl (Error ''Study does not belong to this user (are you logged in?)''), w)) \<and>
   (\<forall>study ex w1. findUnique (db w) study_id = Some study \<and> ls_userId study = user_id \<and>
        ls_included study \<and> unincludeStudy e study_id user_id w = (Inl ex, w1) \<longrightarrow>
      deleteStudy e user_id study_id w = (Inl ex, w)) \<and>
   (\<forall>study n w1. findUnique (db w) study_id = Some study \<and> ls_userId study = user_id \<and>
        ls_included study \<and> unincludeStudy e study_id user_id w = (Inr n, w1) \<longrightarrow>
      (\<exists>d2. study_delete study_id (db w1) = Inr d2 \<and>
         deleteStudy e user_id study_id w = (Inr (), w1 \<lparr> db := d2 \<rparr>) \<and>
         findUnique d2 study_id = None \<and> Move d2 = Move (db w1) \<and>
         unincludeStudy e study_id user_id (w1 \<lparr> db := d2 \<rparr>) =
           (Inl (Error (''Study #'' @ string_of_nat study_id @ '' not found'')), w1 \<lparr> db := d2 \<rparr>))) \<and>
   (\<forall>study. findUnique (db w) study_id = Some study \<and> ls_userId study = user_id \<and>
        ls_included study \<and> distinct (map mv_id (Move (db w))) \<and>
        (\<forall>qs. transaction_fault e (db w) qs = None) \<longrightarrow>
      (\<exists>d2. deleteStudy e user_id study_id w = (Inr (), w \<lparr> db := d2 \<rparr>) \<and>
         findUnique d2 study_id = None \<and>
         Move d2 = map (detach_study study_id) (Move (db w))))"
proof -
  have a: "\<forall>study. findUnique (db w) study_id = Some study \<and> ls_userId study \<noteq> user_id \<longrightarrow>
      deleteStudy e user_id study_id w =
        (Inl (Error ''Study does not belong to this user (are you logged in?)''), w)"
    by (simp add: deleteStudy_def)
  have b: "\<forall>study ex w1. findUnique (db w) study_id = Some study \<and> ls_userId study = user_id \<and>
        ls_included study \<and> unincludeStudy e study_id user_id w = (Inl ex, w1) \<longrightarrow>
      deleteStudy e user_id study_id w = (Inl ex, w)"
  proof (intro allI impI)
    fix study ex w1
    assume h: "findUnique (db w) study_id = Some study \<and> ls_userId study = user_id \<and>
        ls_included study \<and> unincludeStudy e study_id user_id w = (Inl ex, w1)"
    then have "w1 = w" using unincludeStudy_failure_keeps_world by blast
    with h show "deleteStudy e user_id study_id w = (Inl ex, w)"
      by (simp add: deleteStudy_included)
  qed
  have c: "\<forall>study n w1. findUnique (db w) study_id = Some study \<and> ls_userId study = user_id \<and>
        ls_included study \<and> unincludeStudy e study_id user_id w = (Inr n, w1) \<longrightarrow>
      (\<exists>d2. study_delete study_id (db w1) = Inr d2 \<and>
         deleteStudy e user_id study_id w = (Inr (), w1 \<lparr> db := d2 \<rparr>) \<and>
         findUnique d2 study_id = None \<and> Move d2 = Move (db w1) \<and>
         unincludeStudy e study_id user_id (w1 \<lparr> db := d2 \<rparr>) =
           (Inl (Error (''Study #'' @ string_of_nat study_id @ '' not found'')), w1 \<lparr> db := d2 \<rparr>))"
  proof (intro allI impI)
    fix study n w1
    assume h: "findUnique (db w) study_id = Some study \<and> ls_userId study = user_id \<and>
        ls_included study \<and> unincludeStudy e study_id user_id w = (Inr n, w1)"
    then have u: "unincludeStudy e study_id user_id w = (Inr n, w1)" by simp
    from unincludeStudy_detaches [OF u] obtain study1 where
      f1: "findUnique (db w1) study_id = Some study1"
      and nd: "\<forall>m \<in> set (Move (db w1)). study_id \<notin> set (mv_studies m)"
      by blast
    from study_delete_detached [OF f1 nd] obtain d2 where
      d2: "study_delete study_id (db w1) = Inr d2" "findUnique d2 study_id = None"
        "Move d2 = Move (db w1)"
      by blast
    from h d2(1) have "deleteStudy e user_id study_id w = (Inr (), w1 \<lparr> db := d2 \<rparr>)"
      by (simp add: deleteStudy_included)
    moreover from d2(2) have "unincludeStudy e study_id user_id (w1 \<lparr> db := d2 \<rparr>) =
           (Inl (Error (''Study #'' @ string_of_nat study_id @ '' not found'')), w1 \<lparr> db := d2 \<rparr>)"
      by (simp add: unincludeStudy_def)
    ultimately show "\<exists>d2. study_delete study_id (db w1) = Inr d2 \<and>
         deleteStudy e user_id study_id w = (Inr (), w1 \<lparr> db := d2 \<rparr>) \<and>
         findUnique d2 study_id = None \<and> Move d2 = Move (db w1) \<and>
         unincludeStudy e study_id user_id (w1 \<lparr> db := d2 \<rparr>) =
           (Inl (Error (''Study #'' @ string_of_nat study_id @ '' not found'')), w1 \<lparr> db := d2 \<rparr>)"
      using d2 by blast
  qed
  have d: "\<forall>study. findUnique (db w) study_id = Some study \<and> ls_userId study = user_id \<and>
        ls_included study \<and> distinct (map mv_id (Move (db w))) \<and>
        (\<forall>qs. transaction_fault e (db w) qs = None) \<longrightarrow>
      (\<exists>d2. deleteStudy e user_id study_id w = (Inr (), w \<lparr> db := d2 \<rparr>) \<and>
         findUnique d2 study_id = None \<and>
         Move d2 = map (detach_study study_id) (Move (db w)))"
  proof (intro allI impI)
    fix study
    assume h: "findUnique (db w) study_id = Some study \<and> ls_userId study = user_id \<and>
        ls_included study \<and> distinct (map mv_id (Move (db w))) \<and>
        (\<forall>qs. transaction_fault e (db w) qs = None)"
    then have "transaction e (db w) (orphanMoveSoftDeletionsQueries (study_moves (db w) study_id) @
            [StudyUpdate study_id (no_data \<lparr> d_included := Some False, d_moves_set := Some [] \<rparr>)])
         = Inr (unincluded_db study_id (db w))"
      by (simp add: transaction_def uninclude_batch)
    with h have u: "unincludeStudy e study_id user_id w =
        (Inr (length (orphanMoveSoftDeletionsQueries (study_moves (db w) study_id))),
         w \<lparr> db := unincluded_db study_id (db w) \<rparr>)"
      by (simp add: unincludeStudy_def Let_def)
    from c h u obtain d2 where
      "deleteStudy e user_id study_id w =
         (Inr (), w \<lparr> db := unincluded_db study_id (db w) \<rparr> \<lparr> db := d2 \<rparr>)"
      "findUnique d2 study_id = None"
      "Move d2 = Move (db (w \<lparr> db := unincluded_db study_id (db w) \<rparr>))"
      by blast
    then have "deleteStudy e user_id study_id w = (Inr (), w \<lparr> db := d2 \<rparr>) \<and>
         findUnique d2 study_id = None \<and>
         Move d2 = map (detach_study study_id) (Move (db w))"
      by (simp add: unincluded_db_def)
    then show "\<exists>d2. deleteStudy e user_id study_id w = (Inr (), w \<lparr> db := d2 \<rparr>) \<and>
         findUnique d2 study_id = None \<and>
         Move d2 = map (detach_study study_id) (Move (db w))"
      by (rule exI)
  qed
  show ?thesis by (rule conjI [OF a conjI [OF b conjI [OF c d]]])
qed

theorem deleteStudy_two_steps_witness:
  "fst (deleteStudy ex_env ''u'' 1 ex_world) = Inr () \<and>
   findUnique (db (snd (deleteStudy ex_env ''u'' 1 ex_world))) 1 = None \<and>
   map mv_deleted (Move (db (snd (deleteStudy ex_env ''u'' 1 ex_world)))) =
     [True, True, True, False, False, True] \<and>
   map mv_studies (Move (db (snd (deleteStudy ex_env ''u'' 1 ex_world)))) =
     [[], [], [], [3], [], []] \<and>
   deleteStudy ex_env ''v'' 1 ex_world =
     (Inl (Error ''Study does not belong to this user (are you logged in?)''), ex_world) \<and>
   deleteStudy ex_env_fault ''u'' 1 ex_world = (Inl (Error ''deadlock''), ex_world)"
proof -
  let ?D = "deleteStudy ex_env ''u'' 1 ex_world"
  have f: "findUnique (db ex_world) 1 = Some (ex_study 1 ''a'' ''u'' ''p1'' True False)"
    by code_simp
  have p: "ls_userId (ex_study 1 ''a'' ''u'' ''p1'' True False) = ''u''"
    "ls_userId (ex_study 1 ''a'' ''u'' ''p1'' True False) \<noteq> ''v''"
    "ls_included (ex_study 1 ''a'' ''u'' ''p1'' True False)"
    by (simp_all add: ex_study_def)
  have dist: "distinct (map mv_id (Move (db ex_world)))" by code_simp
  have nf: "\<forall>qs. transaction_fault ex_env (db ex_world) qs = None"
    by (simp add: ex_env_def)
  have uf: "unincludeStudy ex_env_fault 1 ''u'' ex_world = (Inl (Error ''deadlock''), ex_world)"
    by code_simp
  have dm: "map mv_deleted (map (detach_study 1) (Move (db ex_world))) =
      [True, True, True, False, False, True]"
    "map mv_studies (map (detach_study 1) (Move (db ex_world))) = [[], [], [], [3], [], []]"
    by code_simp+
  note inst = deleteStudy_two_steps [where w = ex_world and study_id = 1 and e = ex_env
     and user_id = "''u''"]
  from inst [THEN conjunct2, THEN conjunct2, THEN conjunct2, rule_format,
             OF conjI [OF f conjI [OF p(1) conjI [OF p(3) conjI [OF dist nf]]]]]
  obtain d2 where d2: "?D = (Inr (), ex_world \<lparr> db := d2 \<rparr>)" "findUnique d2 1 = None"
    "Move d2 = map (detach_study 1) (Move (db ex_world))"
    by blast
  from d2 dm have 1: "fst ?D = Inr ()" "findUnique (db (snd ?D)) 1 = None"
    "map mv_deleted (Move (db (snd ?D))) = [True, True, True, False, False, True]"
    "map mv_studies (Move (db (snd ?D))) = [[], [], [], [3], [], []]"
    by simp_all
  from deleteStudy_two_steps [where w = ex_world and study_id = 1 and e = ex_env
     and user_id = "''v''", THEN conjunct1, rule_format, OF conjI [OF f p(2)]]
  have 2: "deleteStudy ex_env ''v'' 1 ex_world =
     (Inl (Error ''Study does not belong to this user (are you logged in?)''), ex_world)" .
  have f': "findUnique (db ex_world) 1 = Some (ex_study 1 ''a'' ''u'' ''p1'' True False)"
    by (rule f)
  from deleteStudy_two_steps [where w = ex_world and study_id = 1 and e = ex_env_fault
     and user_id = "''u''", THEN conjunct2, THEN conjunct1, rule_format,
     OF conjI [OF f' conjI [OF p(1) conjI [OF p(3) uf]]]]
  have 3: "deleteStudy ex_env_fault ''u'' 1 ex_world = (Inl (Error ''deadlock''), ex_world)" .
  from 1 2 3 show ?thesis by blast
qed

section \<open>The invariant of the move graph\<close>

text \<open>
  Claim C5. Every operation of the module keeps the invariant that a move with an
  owning collection is not deleted (together with the well-formedness of the ids of the
  moves): \<^verbatim>\<open>includeStudy\<close>, \<^verbatim>\<open>unincludeStudy\<close>, \<^verbatim>\<open>deleteStudy\<close>, \<^verbatim>\<open>fetchStudyUpdate\<close>,
  \<^verbatim>\<open>updateUnincludedStudy\<close> and \<^verbatim>\<open>fetchAllStudyChanges\<close>, whether they succeed or
  fail. After a successful inclusion every parsed move is in the table under its
  composite key, owned by the study and not deleted, also when it existed before and was
  soft-deleted. After a successful un-inclusion or deletion, every deleted move has no
  owning collection.
\<close>

theorem move_invariant_preserved:
  assumes "moves_wf (db w)" and "move_invariant (db w)"
  shows "(\<forall>r w'. includeStudy e study_id user_id repForWhite onlyVariant w = (r, w') \<longrightarrow>
            moves_wf (db w') \<and> move_invariant (db w')) \<and>
         (\<forall>u w' study move.
            includeStudy e study_id user_id repForWhite onlyVariant w = (Inr u, w') \<and>
            findUnique (db w) study_id = Some study \<and>
            move \<in> set (pgndbToMoves e (ls_pgn study) (Some repForWhite) (Some True)) \<longrightarrow>
            owned_undeleted user_id study_id (db w') move) \<and>
         (\<forall>r w'. unincludeStudy e study_id user_id w = (r, w') \<longrightarrow>
            moves_wf (db w') \<and> move_invariant (db w')) \<and>
         (\<forall>r w'. deleteStudy e user_id study_id w = (r, w') \<longrightarrow>
            moves_wf (db w') \<and> move_invariant (db w')) \<and>
         (\<forall>r w'. fetchStudyUpdate e user_id study_id lichess_username lichess_access_token w = (r, w') \<longrightarrow>
            moves_wf (db w') \<and> move_invariant (db w')) \<and>
         (\<forall>r w'. updateUnincludedStudy e user_id study_id lichess_username lichess_access_token w = (r, w') \<longrightarrow>
            moves_wf (db w') \<and> move_invariant (db w')) \<and>
         (\<forall>r w'. fetchAllStudyChanges e user_id lichess_username lichess_access_token w = (r, w') \<longrightarrow>
            moves_wf (db w') \<and> move_invariant (db w')) \<and>
         (\<forall>r w' m. unincludeStudy e study_id user_id w = (r, w') \<and>
                    m \<in> set (Move (db w')) \<and> mv_deleted m \<longrightarrow>
            mv_pgns m = [] \<and> mv_studies m = []) \<and>
         (\<forall>r w' m. deleteStudy e user_id study_id w = (r, w') \<and>
                    m \<in> set (Move (db w')) \<and> mv_deleted m \<longrightarrow>
            mv_pgns m = [] \<and> mv_studies m = [])"
proof -
  have 1: "\<forall>r w'. includeStudy e study_id user_id repForWhite onlyVariant w = (r, w') \<longrightarrow>
            moves_wf (db w') \<and> move_invariant (db w')"
    using includeStudy_inv assms by blast
  have 2: "\<forall>u w' study move.
            includeStudy e study_id user_id repForWhite onlyVariant w = (Inr u, w') \<and>
            findUnique (db w) study_id = Some study \<and>
            move \<in> set (pgndbToMoves e (ls_pgn study) (Some repForWhite) (Some True)) \<longrightarrow>
            owned_undeleted user_id study_id (db w') move"
    using includeStudy_reattaches by blast
  have 3: "\<forall>r w'. unincludeStudy e study_id user_id w = (r, w') \<longrightarrow>
            moves_wf (db w') \<and> move_invariant (db w')"
    using unincludeStudy_inv assms by blast
  have 4: "\<forall>r w'. deleteStudy e user_id study_id w = (r, w') \<longrightarrow>
            moves_wf (db w') \<and> move_invariant (db w')"
    using deleteStudy_inv assms by blast
  have 5: "\<forall>r w'. fetchStudyUpdate e user_id study_id lichess_username lichess_access_token w = (r, w') \<longrightarrow>
            moves_wf (db w') \<and> move_invariant (db w')"
    using fetchStudyUpdate_frame frame_inv assms by blast
  have 6: "\<forall>r w'. updateUnincludedStudy e user_id study_id lichess_username lichess_access_token w = (r, w') \<longrightarrow>
            moves_wf (db w') \<and> move_invariant (db w')"
    using updateUnincludedStudy_frame frame_inv assms by blast
  have 7: "\<forall>r w'. fetchAllStudyChanges e user_id lichess_username lichess_access_token w = (r, w') \<longrightarrow>
            moves_wf (db w') \<and> move_invariant (db w')"
    using fetchAllStudyChanges_inv assms by blast
  have 8: "\<forall>r w' m. unincludeStudy e study_id user_id w = (r, w') \<and>
                    m \<in> set (Move (db w')) \<and> mv_deleted m \<longrightarrow>
            mv_pgns m = [] \<and> mv_studies m = []"
    using 3 unfolding move_invariant_def by blast
  have 9: "\<forall>r w' m. deleteStudy e user_id study_id w = (r, w') \<and>
                    m \<in> set (Move (db w')) \<and> mv_deleted m \<longrightarrow>
            mv_pgns m = [] \<and> mv_studies m = []"
    using 4 unfolding move_invariant_def by blast
  show ?thesis
    by (rule conjI [OF 1 conjI [OF 2 conjI [OF 3 conjI [OF 4 conjI [OF 5 conjI [OF 6
          conjI [OF 7 conjI [OF 8 9]]]]]]]])
qed

theorem move_invariant_preserved_witness:
  "moves_wf (db ex_world) \<and> move_invariant (db ex_world) \<and>
   move_invariant (db (snd (includeStudy ex_env 2 ''u'' True None ex_world))) \<and>
   owned_undeleted ''u'' 2 (db (snd (includeStudy ex_env 2 ''u'' True None ex_world)))
     \<lparr> pm_repForWhite = True, pm_ownMove = True, pm_fromFen = ''g0'', pm_toFen = ''g1'' \<rparr> \<and>
   move_invariant (db (snd (unincludeStudy ex_env 1 ''u'' ex_world))) \<and>
   move_invariant (db (snd (fetchAllStudyChanges ex_env ''u'' [] [] ex_world)))"
proof -
  let ?I = "includeStudy ex_env 2 ''u'' True None ex_world"
  have h1: "moves_wf (db ex_world)" by code_simp
  have h2: "move_invariant (db ex_world)" by code_simp
  have ok: "fst ?I = Inr ()" by code_simp
  then have ok': "?I = (Inr (), snd ?I)" by (metis prod.collapse)
  have f: "findUnique (db ex_world) 2 = Some (ex_study 2 ''b'' ''u'' ''p2'' False False)"
    by code_simp
  have m: "\<lparr> pm_repForWhite = True, pm_ownMove = True, pm_fromFen = ''g0'', pm_toFen = ''g1'' \<rparr>
      \<in> set (pgndbToMoves ex_env (ls_pgn (ex_study 2 ''b'' ''u'' ''p2'' False False))
                (Some True) (Some True))"
    by code_simp
  note inst = move_invariant_preserved [OF h1 h2, where e = ex_env and user_id = "''u''"
      and repForWhite = True and onlyVariant = None and lichess_username = "[]"
      and lichess_access_token = "[]"]
  from inst [where study_id = 2, THEN conjunct1, rule_format, OF ok']
  have 1: "move_invariant (db (snd ?I))" by simp
  from inst [where study_id = 2, THEN conjunct2, THEN conjunct1, rule_format,
             OF conjI [OF ok' conjI [OF f m]]]
  have 2: "owned_undeleted ''u'' 2 (db (snd ?I))
     \<lparr> pm_repForWhite = True, pm_ownMove = True, pm_fromFen = ''g0'', pm_toFen = ''g1'' \<rparr>" .
  from inst [where study_id = 1, THEN conjunct2, THEN conjunct2, THEN conjunct1, rule_format,
             OF prod.collapse [symmetric]]
  have 3: "move_invariant (db (snd (unincludeStudy ex_env 1 ''u'' ex_world)))" by simp
  from inst [where study_id = 1, THEN conjunct2, THEN conjunct2, THEN conjunct2, THEN conjunct2,
             THEN conjunct2, THEN conjunct2, THEN conjunct1, rule_format,
             OF prod.collapse [symmetric]]
  have 4: "move_invariant (db (snd (fetchAllStudyChanges ex_env ''u'' [] [] ex_world)))" by simp
  from h1 h2 1 2 3 4 show ?thesis by blast
qed







text \<open>
  The loop over a list of remote studies is the loop over a prefix followed by the loop
  over the rest, and after any prefix of a pass the snapshot taken at its start still
  agrees with the database.
\<close>

lemma sync_lichess_studies_append:
  "sync_lichess_studies e u un tok existing (xs @ ys) s w =
     (case sync_lichess_studies e u un tok existing xs s w of
        (Inl ex, w') \<Rightarrow> (Inl ex, w')
      | (Inr s', w') \<Rightarrow> sync_lichess_studies e u un tok existing ys s' w')"
  by (induction xs arbitrary: s w) (auto split: prod.splits sum.splits)

lemma snapshot_current_during_pass:
  assumes "distinct (map ls_id (LichessStudy (db w)))"
    and "sync_lichess_studies e u un tok (findMany_existing (db w) u) xs s w = (r, w')"
  shows "snapshot_current u (findMany_existing (db w) u) (db w')"
  using snapshot_current_kept [OF assms(1)] sync_lichess_studies_frame [OF assms(2)] by blast

section \<open>Content changes\<close>






end
